theory Spec2Isabelle
  imports Main "HOL-Library.Word"
begin

unbundle bit_operations_syntax

section \<open>Values and their rendering (lib/query/encode.go)\<close>

text \<open>
  The three states of the ternary package, which is not among the sources; the names are
  those of the specification's data model.
\<close>

datatype ternary = TRUE | FALSE | UNKNOWN

text \<open>
  A primary value is a tagged variant over seven kinds. The payloads of Integer, Float
  and Datetime are kept abstract: the code only passes them to their own formatters.
\<close>

datatype ('i, 'f, 'd) Primary =
    String string
  | Integer 'i
  | Float 'f
  | Boolean bool
  | Ternary ternary
  | Datetime 'd
  | Null

datatype Kind =
  KString | KInteger | KFloat | KBoolean | KTernary | KDatetime | KNull

fun kind_of :: "('i, 'f, 'd) Primary \<Rightarrow> Kind" where
  "kind_of (String _) = KString"
| "kind_of (Integer _) = KInteger"
| "kind_of (Float _) = KFloat"
| "kind_of (Boolean _) = KBoolean"
| "kind_of (Ternary _) = KTernary"
| "kind_of (Datetime _) = KDatetime"
| "kind_of Null = KNull"

text \<open>
  The effect names of package cmd (\<open>cmd.NoEffect\<close>, \<open>cmd.StringEffect\<close>, ...) are
  string constants declared outside the sources; they are pairwise different names, so
  they are a datatype here.
\<close>

datatype Effect =
  NoEffect | StringEffect | NumberEffect | BooleanEffect | TernaryEffect
  | DatetimeEffect | NullEffect

text \<open>
  \<open>text.FieldAlignment\<close> of the go-text package; \<open>NotAligned\<close> is its zero value, with
  which a new slice of alignments or fields is filled.
\<close>

datatype FieldAlignment = NotAligned | Centering | RightAligned | LeftAligned

text \<open>
  The formatters of the value package that \<open>ConvertFieldContents\<close> calls:
  \<open>(*Integer).String\<close>, \<open>(*Float).String\<close>, \<open>(*Boolean).String\<close> and
  \<open>(*Datetime).Format(time.RFC3339Nano)\<close>. They live outside the sources and are
  parameters of the model.
\<close>

record ('i, 'f, 'd) Formatters =
  Integer_String :: "'i \<Rightarrow> string"
  Float_String :: "'f \<Rightarrow> string"
  Boolean_String :: "bool \<Rightarrow> string"
  Datetime_Format :: "'d \<Rightarrow> string"

text \<open>
  Modelled from the spec: \<open>ternary.Value.String\<close> of the ternary package, which is not
  among the sources. The specification names the three states TRUE, FALSE and UNKNOWN.
\<close>

fun ternary_String :: "ternary \<Rightarrow> string" where
  "ternary_String TRUE = ''TRUE''"
| "ternary_String FALSE = ''FALSE''"
| "ternary_String UNKNOWN = ''UNKNOWN''"

text \<open>
  Modelled from the spec: \<open>ternary.Value.ParseBool\<close> of the same package; UNKNOWN behaves
  as false wherever a two-valued answer is required.
\<close>

fun ternary_ParseBool :: "ternary \<Rightarrow> bool" where
  "ternary_ParseBool TRUE = True"
| "ternary_ParseBool FALSE = False"
| "ternary_ParseBool UNKNOWN = False"

text \<open>\<open>strconv.FormatBool\<close> of the Go standard library.\<close>

definition FormatBool :: "bool \<Rightarrow> string" where
  "FormatBool b = (if b then ''true'' else ''false'')"

text \<open>
  \<open>ConvertFieldContents(val, forTextTable)\<close>: the three results start as the empty
  string, \<open>NoEffect\<close> and \<open>NotAligned\<close>, and each branch of the type switch overwrites
  some of them.
\<close>

fun ConvertFieldContents ::
  "('i, 'f, 'd) Formatters \<Rightarrow> ('i, 'f, 'd) Primary \<Rightarrow> bool
     \<Rightarrow> string \<times> Effect \<times> FieldAlignment" where
  "ConvertFieldContents fm (String s) forTextTable = (s, StringEffect, NotAligned)"
| "ConvertFieldContents fm (Integer i) forTextTable =
     (Integer_String fm i, NumberEffect, RightAligned)"
| "ConvertFieldContents fm (Float f) forTextTable =
     (Float_String fm f, NumberEffect, RightAligned)"
| "ConvertFieldContents fm (Boolean b) forTextTable =
     (Boolean_String fm b, BooleanEffect, Centering)"
| "ConvertFieldContents fm (Ternary t) forTextTable =
     (if forTextTable then (ternary_String t, TernaryEffect, Centering)
      else if t \<noteq> UNKNOWN then (FormatBool (ternary_ParseBool t), BooleanEffect, Centering)
      else ('''', NoEffect, NotAligned))"
| "ConvertFieldContents fm (Datetime d) forTextTable =
     (Datetime_Format fm d, DatetimeEffect, NotAligned)"
| "ConvertFieldContents fm Null forTextTable =
     (if forTextTable then (''NULL'', NullEffect, Centering)
      else ('''', NoEffect, NotAligned))"

section \<open>Options (lib/cmd/flags.go)\<close>

text \<open>\<open>type Format int\<close> with its constants, \<open>AutoSelect\<close> being \<open>-1\<close>.\<close>

datatype Format = AutoSelect | CSV | TSV | FIXED | JSON | LTSV | GFM | ORG | TEXT

text \<open>
  Modelled from the spec: the enumerations \<open>text.Encoding\<close>, \<open>text.LineBreak\<close> and
  \<open>json.EscapeType\<close> of the go-text package, which is not among the sources. The
  specification lists their members; \<open>Backslash\<close> is the zero value of its type.
\<close>

datatype Encoding = AUTO | UTF8 | UTF8M | UTF16 | UTF16BE | UTF16LE | UTF16BEM | UTF16LEM | SJIS

datatype LineBreak = LF | CR | CRLF

datatype EscapeType = Backslash | HexDigits | AllWithHexDigits

type_synonym rune = "32 word"

record ImportOptions =
  imp_Format :: Format
  imp_Delimiter :: rune
  imp_DelimiterPositions :: "int list option"
  imp_SingleLine :: bool
  imp_JsonQuery :: string
  imp_Encoding :: Encoding
  imp_NoHeader :: bool
  imp_WithoutNull :: bool

record ExportOptions =
  StripEndingLineBreak :: bool
  Format :: Format
  Encoding :: Encoding
  Delimiter :: rune
  DelimiterPositions :: "int list option"
  SingleLine :: bool
  WithoutHeader :: bool
  LineBreak :: LineBreak
  EncloseAll :: bool
  JsonEscape :: EscapeType
  PrettyPrint :: bool
  EastAsianEncoding :: bool
  CountDiacriticalSign :: bool
  CountFormatCode :: bool
  Color :: bool

section \<open>Views, errors and the cancellation context\<close>

text \<open>
  Modelled from the spec: the view type and its \<open>FieldLen\<close> and \<open>RecordLen\<close> methods,
  which are declared outside the sources. A view has a header and a record set; a record
  is a sequence of cells, a cell a sequence of values whose element 0 is its value; the
  field length is the header's length and the record length the record set's.
\<close>

record HeaderField =
  Column :: string

record ('i, 'f, 'd) View =
  Header :: "HeaderField list"
  RecordSet :: "('i, 'f, 'd) Primary list list list"

definition FieldLen :: "('i, 'f, 'd) View \<Rightarrow> nat" where
  "FieldLen view = length (Header view)"

definition RecordLen :: "('i, 'f, 'd) View \<Rightarrow> nat" where
  "RecordLen view = length (RecordSet view)"

text \<open>
  The errors the encoders return: the two package variables of encode.go and the error
  constructors they call (\<open>NewDataEncodingError\<close>, \<open>NewSystemError\<close>), with their message.
\<close>

datatype Error =
    EmptyResultSetError
  | DataEmpty
  | DataEncodingError string
  | SystemError string
  | ContextCanceled
  | ContextDeadlineExceeded

text \<open>
  \<open>ctx.Err()\<close> is \<open>nil\<close>, \<open>context.Canceled\<close> or \<open>context.DeadlineExceeded\<close>. A context
  is modelled by what \<open>Err\<close> answers at each tick of a logical clock; a record loop reads
  the clock at its record index (a second loop of the same call continues the count).
\<close>

datatype ContextErr = Canceled | DeadlineExceeded

type_synonym Context = "nat \<Rightarrow> ContextErr option"

text \<open>
  Modelled from the spec: \<open>ConvertContextError\<close>, defined outside the sources, turns the
  context's error into the engine's \<open>ContextCanceled\<close> or \<open>ContextDeadlineExceeded\<close>.
\<close>

fun ConvertContextError :: "ContextErr \<Rightarrow> Error" where
  "ConvertContextError Canceled = ContextCanceled"
| "ConvertContextError DeadlineExceeded = ContextDeadlineExceeded"

text \<open>
  The guard \<open>i&15 == 0 && ctx.Err() != nil\<close> of every record loop, \<open>t\<close> being the tick
  at which the loop reads the context.
\<close>

definition canceled_at :: "Context \<Rightarrow> nat \<Rightarrow> nat \<Rightarrow> bool" where
  "canceled_at ctx i t \<longleftrightarrow> i AND 15 = 0 \<and> ctx t \<noteq> None"

text \<open>
  The writers of the go-text package are outside the sources. A writer is modelled by the
  rows handed to it so far; whether creating it, a write or the flush fails is a parameter:
  \<open>NewWriter_err\<close> reads the constructor's arguments, \<open>Write_err\<close> the rows written so far
  and the row, \<open>Flush_err\<close> the rows written.
\<close>

record ('h, 'r) Writer =
  NewWriter_err :: "'h \<Rightarrow> string option"
  Write_err :: "'r list \<Rightarrow> 'r \<Rightarrow> string option"
  Flush_err :: "'r list \<Rightarrow> string option"

text \<open>
  \<open>for j := range record { fields[j] = f(record[j][0]) }\<close>: element 0 of an empty cell and
  a field index beyond the slice both panic (\<open>None\<close>).
\<close>

fun fill_fields :: "('v \<Rightarrow> 'r) \<Rightarrow> 'v list list \<Rightarrow> nat \<Rightarrow> 'r list \<Rightarrow> 'r list option" where
  "fill_fields f [] j flds = Some flds"
| "fill_fields f (cell # cells) j flds =
     (case cell of
        [] \<Rightarrow> None
      | v # _ \<Rightarrow>
          if j < length flds then fill_fields f cells (Suc j) (flds[j := f v])
          else None)"

text \<open>
  \<open>for i := range view.Header { fields[i] = f(view.Header[i].Column) }\<close>, the header
  loop the encoders share; an index beyond the slice panics.
\<close>

fun fill_header :: "(string \<Rightarrow> 'r) \<Rightarrow> HeaderField list \<Rightarrow> nat \<Rightarrow> 'r list \<Rightarrow> 'r list option" where
  "fill_header f [] i flds = Some flds"
| "fill_header f (h # hs) i flds =
     (if i < length flds then fill_header f hs (Suc i) (flds[i := f (Column h)])
      else None)"

section \<open>The CSV encoder\<close>

text \<open>\<open>csv.Field\<close> and \<open>csv.NewField(contents, quote)\<close> of the go-text package.\<close>

record csv_Field =
  Contents :: string
  Quote :: bool

definition csv_NewField :: "string \<Rightarrow> bool \<Rightarrow> csv_Field" where
  "csv_NewField str quote = \<lparr>Contents = str, Quote = quote\<rparr>"

text \<open>The body of the inner loop of \<open>encodeCSV\<close>, for one value.\<close>

definition csv_data_field ::
  "('i, 'f, 'd) Formatters \<Rightarrow> ExportOptions \<Rightarrow> ('i, 'f, 'd) Primary \<Rightarrow> csv_Field" where
  "csv_data_field fm options v =
     (case ConvertFieldContents fm v False of
        (str, effect, _) \<Rightarrow>
          csv_NewField str
            (if EncloseAll options \<and> (effect = StringEffect \<or> effect = DatetimeEffect)
             then True else False))"

text \<open>
  The record loop of \<open>encodeCSV\<close>, from record index \<open>i\<close>. The result is \<open>None\<close> for a
  panic, and otherwise the error of a \<open>return\<close> inside the loop, the value of the variable
  \<open>err\<close> when the loop is left, and the rows written.
\<close>

fun encodeCSV_records ::
  "Context \<Rightarrow> ('h, csv_Field list) Writer \<Rightarrow> ('i, 'f, 'd) Formatters \<Rightarrow> ExportOptions
     \<Rightarrow> ('i, 'f, 'd) Primary list list list \<Rightarrow> nat \<Rightarrow> csv_Field list \<Rightarrow> csv_Field list list
     \<Rightarrow> (Error option \<times> Error option \<times> csv_Field list list) option" where
  "encodeCSV_records ctx w fm options [] i flds out = Some (None, None, out)"
| "encodeCSV_records ctx w fm options (rcd # rest) i flds out =
     (if canceled_at ctx i i
      then Some (None, map_option ConvertContextError (ctx i), out)
      else
        (case fill_fields (csv_data_field fm options) rcd 0 flds of
           None \<Rightarrow> None
         | Some flds' \<Rightarrow>
             (case Write_err w out flds' of
                Some e \<Rightarrow> Some (Some (SystemError e), None, out)
              | None \<Rightarrow> encodeCSV_records ctx w fm options rest (Suc i) flds' (out @ [flds']))))"

text \<open>
  What follows the record loop of \<open>encodeCSV\<close>: a \<open>return\<close> inside the loop has left
  the function; otherwise \<open>err = w.Flush()\<close> assigns the variable \<open>err\<close> again, whatever
  the loop left in it, and the function returns \<open>nil\<close> unless the flush failed.
\<close>

fun encodeCSV_finish ::
  "('h, csv_Field list) Writer \<Rightarrow> (Error option \<times> Error option \<times> csv_Field list list) option
     \<Rightarrow> (Error option \<times> csv_Field list list) option" where
  "encodeCSV_finish w None = None"
| "encodeCSV_finish w (Some (Some e, err, out)) = Some (Some e, out)"
| "encodeCSV_finish w (Some (None, err, out)) =
     (case Flush_err w out of
        Some e \<Rightarrow> Some (Some (SystemError e), out)
      | None \<Rightarrow> Some (None, out))"

text \<open>
  \<open>encodeCSV\<close>. The result is \<open>None\<close> for a panic, and otherwise the error returned
  (\<open>None\<close> for \<open>nil\<close>) with the rows written.
\<close>

definition encodeCSV ::
  "Context \<Rightarrow> (LineBreak \<times> Encoding, csv_Field list) Writer \<Rightarrow> ('i, 'f, 'd) Formatters
     \<Rightarrow> ('i, 'f, 'd) View \<Rightarrow> ExportOptions \<Rightarrow> (Error option \<times> csv_Field list list) option" where
  "encodeCSV ctx w fm view options =
     (case NewWriter_err w (LineBreak options, Encoding options) of
        Some e \<Rightarrow> Some (Some (DataEncodingError e), [])
      | None \<Rightarrow>
          (let flds = replicate (FieldLen view) \<lparr>Contents = '''', Quote = False\<rparr> in
             if \<not> WithoutHeader options then
               (case fill_header (\<lambda>c. csv_NewField c (EncloseAll options)) (Header view) 0 flds of
                  None \<Rightarrow> None
                | Some flds' \<Rightarrow>
                    (case Write_err w [] flds' of
                       Some e \<Rightarrow> Some (Some (SystemError e), [])
                     | None \<Rightarrow>
                         encodeCSV_finish w
                           (encodeCSV_records ctx w fm options (RecordSet view) 0 flds' [flds'])))
             else if RecordLen view < 1 then Some (Some DataEmpty, [])
             else encodeCSV_finish w
                    (encodeCSV_records ctx w fm options (RecordSet view) 0 flds [])))"


section \<open>The LTSV encoder\<close>

text \<open>
  The record loop of \<open>encodeLTSV\<close>, from record index \<open>i\<close>: \<open>None\<close> for a panic, and
  otherwise the error of a \<open>return\<close> inside the loop with the rows written.
\<close>

fun encodeLTSV_records ::
  "Context \<Rightarrow> ('h, string list) Writer \<Rightarrow> ('i, 'f, 'd) Formatters
     \<Rightarrow> ('i, 'f, 'd) Primary list list list \<Rightarrow> nat \<Rightarrow> string list \<Rightarrow> string list list
     \<Rightarrow> (Error option \<times> string list list) option" where
  "encodeLTSV_records ctx w fm [] i flds out = Some (None, out)"
| "encodeLTSV_records ctx w fm (rcd # rest) i flds out =
     (if canceled_at ctx i i
      then Some (map_option ConvertContextError (ctx i), out)
      else
        (case fill_fields (\<lambda>v. fst (ConvertFieldContents fm v False)) rcd 0 flds of
           None \<Rightarrow> None
         | Some flds' \<Rightarrow>
             (case Write_err w out flds' of
                Some e \<Rightarrow> Some (Some (DataEncodingError e), out)
              | None \<Rightarrow> encodeLTSV_records ctx w fm rest (Suc i) flds' (out @ [flds']))))"

text \<open>
  What follows a record loop that returns its errors itself: the flush, whose failure is
  a \<open>SystemError\<close>.
\<close>

fun flush_after ::
  "('h, 'r) Writer \<Rightarrow> (Error option \<times> 'r list) option \<Rightarrow> (Error option \<times> 'r list) option" where
  "flush_after w None = None"
| "flush_after w (Some (Some e, out)) = Some (Some e, out)"
| "flush_after w (Some (None, out)) =
     (case Flush_err w out of
        Some e \<Rightarrow> Some (Some (SystemError e), out)
      | None \<Rightarrow> Some (None, out))"

definition encodeLTSV ::
  "Context \<Rightarrow> (string list \<times> LineBreak \<times> Encoding, string list) Writer
     \<Rightarrow> ('i, 'f, 'd) Formatters \<Rightarrow> ('i, 'f, 'd) View \<Rightarrow> ExportOptions
     \<Rightarrow> (Error option \<times> string list list) option" where
  "encodeLTSV ctx w fm view options =
     (if RecordLen view < 1 then Some (Some DataEmpty, [])
      else
        (case fill_header (\<lambda>c. c) (Header view) 0 (replicate (FieldLen view) '''') of
           None \<Rightarrow> None
         | Some hfields \<Rightarrow>
             (case NewWriter_err w (hfields, LineBreak options, Encoding options) of
                Some e \<Rightarrow> Some (Some (DataEncodingError e), [])
              | None \<Rightarrow>
                  flush_after w
                    (encodeLTSV_records ctx w fm (RecordSet view) 0
                       (replicate (FieldLen view) '''') []))))"

section \<open>The fixed-length encoder\<close>

text \<open>\<open>fixedlen.Field\<close> and \<open>fixedlen.NewField(contents, alignment)\<close> of the go-text package.\<close>

record fixedlen_Field =
  fl_Contents :: string
  fl_Alignment :: FieldAlignment

definition fixedlen_NewField :: "string \<Rightarrow> FieldAlignment \<Rightarrow> fixedlen_Field" where
  "fixedlen_NewField str a = \<lparr>fl_Contents = str, fl_Alignment = a\<rparr>"

definition fixedlen_data_field ::
  "('i, 'f, 'd) Formatters \<Rightarrow> ('i, 'f, 'd) Primary \<Rightarrow> fixedlen_Field" where
  "fixedlen_data_field fm v =
     (case ConvertFieldContents fm v False of (str, _, a) \<Rightarrow> fixedlen_NewField str a)"

text \<open>
  The measuring loop of \<open>encodeFixedLengthFormat\<close> (no delimiter positions given): each
  record fills a fresh slice of \<open>fieldLen\<close> fields, which is stored in \<open>fieldList\<close> and
  measured.
\<close>

fun fixedlen_measure_records ::
  "Context \<Rightarrow> ('i, 'f, 'd) Formatters \<Rightarrow> nat \<Rightarrow> ('i, 'f, 'd) Primary list list list \<Rightarrow> nat
     \<Rightarrow> fixedlen_Field list list \<Rightarrow> (Error option \<times> fixedlen_Field list list) option" where
  "fixedlen_measure_records ctx fm fieldLen [] i fieldList = Some (None, fieldList)"
| "fixedlen_measure_records ctx fm fieldLen (rcd # rest) i fieldList =
     (if canceled_at ctx i i
      then Some (map_option ConvertContextError (ctx i), fieldList)
      else
        (case fill_fields (fixedlen_data_field fm) rcd 0
                (replicate fieldLen \<lparr>fl_Contents = '''', fl_Alignment = NotAligned\<rparr>) of
           None \<Rightarrow> None
         | Some flds \<Rightarrow>
             fixedlen_measure_records ctx fm fieldLen rest (Suc i) (fieldList @ [flds])))"

text \<open>
  The writing loop over \<open>fieldList\<close> that follows it; \<open>t0\<close> is the tick of the clock at
  which the loop starts.
\<close>

fun fixedlen_write_list ::
  "Context \<Rightarrow> ('h, fixedlen_Field list) Writer \<Rightarrow> nat \<Rightarrow> fixedlen_Field list list \<Rightarrow> nat
     \<Rightarrow> fixedlen_Field list list \<Rightarrow> (Error option \<times> fixedlen_Field list list) option" where
  "fixedlen_write_list ctx w t0 [] i out = Some (None, out)"
| "fixedlen_write_list ctx w t0 (flds # rest) i out =
     (if canceled_at ctx i (t0 + i)
      then Some (map_option ConvertContextError (ctx (t0 + i)), out)
      else
        (case Write_err w out flds of
           Some e \<Rightarrow> Some (Some (DataEncodingError e), out)
         | None \<Rightarrow> fixedlen_write_list ctx w t0 rest (Suc i) (out @ [flds])))"

text \<open>The record loop of the branch with given delimiter positions.\<close>

fun fixedlen_records ::
  "Context \<Rightarrow> ('h, fixedlen_Field list) Writer \<Rightarrow> ('i, 'f, 'd) Formatters
     \<Rightarrow> ('i, 'f, 'd) Primary list list list \<Rightarrow> nat \<Rightarrow> fixedlen_Field list
     \<Rightarrow> fixedlen_Field list list \<Rightarrow> (Error option \<times> fixedlen_Field list list) option" where
  "fixedlen_records ctx w fm [] i flds out = Some (None, out)"
| "fixedlen_records ctx w fm (rcd # rest) i flds out =
     (if canceled_at ctx i i
      then Some (map_option ConvertContextError (ctx i), out)
      else
        (case fill_fields (fixedlen_data_field fm) rcd 0 flds of
           None \<Rightarrow> None
         | Some flds' \<Rightarrow>
             (case Write_err w out flds' of
                Some e \<Rightarrow> Some (Some (DataEncodingError e), out)
              | None \<Rightarrow> fixedlen_records ctx w fm rest (Suc i) flds' (out @ [flds']))))"

text \<open>
  \<open>encodeFixedLengthFormat\<close>. \<open>GeneratePositions\<close> is the measure of the go-text package:
  from the rows measured, in order, it computes the delimiter positions. The settings
  \<open>InsertSpace\<close> and \<open>SingleLine\<close> of the writer change how a row is laid out, not which
  rows it is given.
\<close>

definition encodeFixedLengthFormat ::
  "Context \<Rightarrow> (fixedlen_Field list list \<Rightarrow> int list)
     \<Rightarrow> (int list \<times> LineBreak \<times> Encoding, fixedlen_Field list) Writer
     \<Rightarrow> ('i, 'f, 'd) Formatters \<Rightarrow> ('i, 'f, 'd) View \<Rightarrow> ExportOptions
     \<Rightarrow> (Error option \<times> fixedlen_Field list list) option" where
  "encodeFixedLengthFormat ctx GeneratePositions w fm view options =
     (let zero = \<lparr>fl_Contents = '''', fl_Alignment = NotAligned\<rparr>;
          fieldLen = FieldLen view
      in
        case DelimiterPositions options of
          None \<Rightarrow>
            (let write_all = (\<lambda>r.
                   case r of
                     None \<Rightarrow> None
                   | Some (Some e, fieldList) \<Rightarrow> Some (Some e, [])
                   | Some (None, fieldList) \<Rightarrow>
                       (case NewWriter_err w
                               (GeneratePositions fieldList, LineBreak options, Encoding options) of
                          Some e \<Rightarrow> Some (Some (DataEncodingError e), [])
                        | None \<Rightarrow>
                            flush_after w
                              (fixedlen_write_list ctx w (RecordLen view) fieldList 0 [])))
             in
               if WithoutHeader options then
                 if RecordLen view < 1 then Some (Some DataEmpty, [])
                 else write_all (fixedlen_measure_records ctx fm fieldLen (RecordSet view) 0 [])
               else
                 (case fill_header (\<lambda>c. fixedlen_NewField c NotAligned) (Header view) 0
                         (replicate fieldLen zero) of
                    None \<Rightarrow> None
                  | Some flds \<Rightarrow>
                      write_all
                        (fixedlen_measure_records ctx fm fieldLen (RecordSet view) 0 [flds])))
        | Some positions \<Rightarrow>
            (case NewWriter_err w (positions, LineBreak options, Encoding options) of
               Some e \<Rightarrow> Some (Some (DataEncodingError e), [])
             | None \<Rightarrow>
                 (let flds = replicate (FieldLen view) zero in
                    if WithoutHeader options then
                      if RecordLen view < 1 then Some (Some DataEmpty, [])
                      else flush_after w (fixedlen_records ctx w fm (RecordSet view) 0 flds [])
                    else if \<not> SingleLine options then
                      (case fill_header (\<lambda>c. fixedlen_NewField c NotAligned) (Header view) 0 flds of
                         None \<Rightarrow> None
                       | Some flds' \<Rightarrow>
                           (case Write_err w [] flds' of
                              Some e \<Rightarrow> Some (Some (DataEncodingError e), [])
                            | None \<Rightarrow>
                                flush_after w
                                  (fixedlen_records ctx w fm (RecordSet view) 0 flds' [flds'])))
                    else flush_after w (fixedlen_records ctx w fm (RecordSet view) 0 flds []))))"


section \<open>The text table encoder (GFM, ORG, TEXT)\<close>

text \<open>
  The table encoder of the go-text package, as the data \<open>encodeText\<close> hands to it: the
  settings it assigns, the header of \<open>SetHeader\<close>, the records of \<open>AppendRecord\<close> and
  the alignments of \<open>SetFieldAlignments\<close>.
\<close>

datatype TableFormat = PlainTable | GFMTable | OrgTable

record table_Field =
  t_Contents :: string
  t_Alignment :: FieldAlignment

definition table_NewField :: "string \<Rightarrow> FieldAlignment \<Rightarrow> table_Field" where
  "table_NewField str a = \<lparr>t_Contents = str, t_Alignment = a\<rparr>"

record table_Encoder =
  e_Format :: TableFormat
  e_LineBreak :: LineBreak
  e_EastAsianEncoding :: bool
  e_CountDiacriticalSign :: bool
  e_CountFormatCode :: bool
  e_WithoutHeader :: bool
  e_Encoding :: Encoding
  e_header :: "table_Field list option"
  e_recordSet :: "table_Field list list"
  e_alignments :: "FieldAlignment list option"

text \<open>
  What \<open>encodeText\<close> calls outside the sources: \<open>palette.Render\<close>, the conversion
  \<open>[]rune(str)\<close> of a string to its code points, \<open>bytes.Buffer.WriteRune\<close> (the bytes it
  appends for a code point), \<open>Encode\<close> of the table encoder (\<open>Inl\<close> its error), and the
  failures of the buffered writer's \<open>WriteString\<close> and \<open>Flush\<close>.
\<close>

record Text_env =
  Render :: "Effect \<Rightarrow> string \<Rightarrow> string"
  runes_of :: "string \<Rightarrow> rune list"
  WriteRune :: "rune \<Rightarrow> string"
  Encode :: "table_Encoder \<Rightarrow> string + string"
  WriteString_err :: "string \<Rightarrow> string option"
  bufio_Flush_err :: "string \<Rightarrow> string option"

text \<open>
  The loop of \<open>encodeText\<close> over the code points of a cell's string, from position
  \<open>pos\<close>, with the two buffers \<open>textLineBuf\<close> and \<open>textStrBuf\<close>; the result is the final
  \<open>textStrBuf.String()\<close>. \<open>0x0D\<close> is \<open>'\\r'\<close> and \<open>0x0A\<close> is \<open>'\\n'\<close>.
\<close>

function text_lines ::
  "(Effect \<Rightarrow> string \<Rightarrow> string) \<Rightarrow> (rune \<Rightarrow> string) \<Rightarrow> Effect \<Rightarrow> rune list \<Rightarrow> nat
     \<Rightarrow> string \<Rightarrow> string \<Rightarrow> string" where
  "text_lines render wr effect runes pos textLineBuf textStrBuf =
     (if length runes \<le> pos then
        (if 0 < length textLineBuf then textStrBuf @ render effect textLineBuf
         else textStrBuf)
      else if runes ! pos = 0x0D then
        text_lines render wr effect runes
          (Suc (if pos + 1 < length runes \<and> runes ! (pos + 1) = 0x0A then pos + 1 else pos))
          []
          ((if 0 < length textLineBuf then textStrBuf @ render effect textLineBuf
            else textStrBuf) @ [CHR 0x0A])
      else if runes ! pos = 0x0A then
        text_lines render wr effect runes (Suc pos) []
          ((if 0 < length textLineBuf then textStrBuf @ render effect textLineBuf
            else textStrBuf) @ [CHR 0x0A])
      else
        text_lines render wr effect runes (Suc pos) (textLineBuf @ wr (runes ! pos)) textStrBuf)"
  by pat_completeness auto
termination
  by (relation "measure (\<lambda>(render, wr, effect, runes, pos, l, s). length runes - pos)") auto

text \<open>The string of a cell as \<open>encodeText\<close> puts it into the table.\<close>

definition text_cell_string :: "Text_env \<Rightarrow> ExportOptions \<Rightarrow> Effect \<Rightarrow> string \<Rightarrow> string" where
  "text_cell_string env options effect str =
     (if Format options = TEXT
      then text_lines (Render env) (WriteRune env) effect (runes_of env str) 0 [] []
      else str)"

text \<open>
  The inner loop of \<open>encodeText\<close> over the cells of record \<open>i\<close>: it fills \<open>rfields\<close>
  and, for the first record, \<open>aligns\<close>.
\<close>

fun encodeText_fields ::
  "Text_env \<Rightarrow> ('i, 'f, 'd) Formatters \<Rightarrow> ExportOptions \<Rightarrow> bool \<Rightarrow> nat
     \<Rightarrow> ('i, 'f, 'd) Primary list list \<Rightarrow> nat \<Rightarrow> table_Field list \<Rightarrow> FieldAlignment list
     \<Rightarrow> (table_Field list \<times> FieldAlignment list) option" where
  "encodeText_fields env fm options isPlainTable i [] j rfields aligns = Some (rfields, aligns)"
| "encodeText_fields env fm options isPlainTable i (cell # cells) j rfields aligns =
     (case cell of
        [] \<Rightarrow> None
      | v # _ \<Rightarrow>
          (case ConvertFieldContents fm v isPlainTable of
             (str, effect, align) \<Rightarrow>
               if j < length rfields then
                 (if i = 0 then
                    (if j < length aligns then
                       encodeText_fields env fm options isPlainTable i cells (Suc j)
                         (rfields[j := table_NewField (text_cell_string env options effect str) align])
                         (aligns[j := align])
                     else None)
                  else
                    encodeText_fields env fm options isPlainTable i cells (Suc j)
                      (rfields[j := table_NewField (text_cell_string env options effect str) align])
                      aligns)
               else None))"

text \<open>The record loop of \<open>encodeText\<close>.\<close>

fun encodeText_records ::
  "Context \<Rightarrow> Text_env \<Rightarrow> ('i, 'f, 'd) Formatters \<Rightarrow> ExportOptions \<Rightarrow> bool \<Rightarrow> nat
     \<Rightarrow> ('i, 'f, 'd) Primary list list list \<Rightarrow> nat \<Rightarrow> FieldAlignment list \<Rightarrow> table_Encoder
     \<Rightarrow> (Error option \<times> FieldAlignment list \<times> table_Encoder) option" where
  "encodeText_records ctx env fm options isPlainTable fieldLen [] i aligns e =
     Some (None, aligns, e)"
| "encodeText_records ctx env fm options isPlainTable fieldLen (rcd # rest) i aligns e =
     (if canceled_at ctx i i
      then Some (map_option ConvertContextError (ctx i), aligns, e)
      else
        (case encodeText_fields env fm options isPlainTable i rcd 0
                (replicate fieldLen \<lparr>t_Contents = '''', t_Alignment = NotAligned\<rparr>) aligns of
           None \<Rightarrow> None
         | Some (rfields, aligns') \<Rightarrow>
             encodeText_records ctx env fm options isPlainTable fieldLen rest (Suc i) aligns'
               (e\<lparr>e_recordSet := e_recordSet e @ [rfields]\<rparr>)))"

text \<open>
  \<open>encodeText\<close> after its first switch, which has chosen the table format and whether
  the table is a plain one. The result is \<open>None\<close> for a panic, and otherwise the string
  and the error returned, with the text written to the output if any was.
\<close>

definition encodeText_table ::
  "Context \<Rightarrow> Text_env \<Rightarrow> ('i, 'f, 'd) Formatters \<Rightarrow> ('i, 'f, 'd) View \<Rightarrow> ExportOptions
     \<Rightarrow> TableFormat \<Rightarrow> bool \<Rightarrow> (string \<times> Error option \<times> string option) option" where
  "encodeText_table ctx env fm view options tableFormat isPlainTable =
     (let e = \<lparr>e_Format = tableFormat,
                e_LineBreak = LineBreak options,
                e_EastAsianEncoding = EastAsianEncoding options,
                e_CountDiacriticalSign = CountDiacriticalSign options,
                e_CountFormatCode = CountFormatCode options,
                e_WithoutHeader = WithoutHeader options,
                e_Encoding = Encoding options,
                e_header = None, e_recordSet = [], e_alignments = None\<rparr>;
          fieldLen = FieldLen view;
          body = (\<lambda>e.
            case encodeText_records ctx env fm options isPlainTable fieldLen (RecordSet view) 0
                   (replicate fieldLen NotAligned) e of
              None \<Rightarrow> None
            | Some (Some err, _, _) \<Rightarrow> Some ('''', Some err, None)
            | Some (None, aligns, e') \<Rightarrow>
                (case Encode env
                        (if Format options = GFM then e'\<lparr>e_alignments := Some aligns\<rparr> else e') of
                   Inl msg \<Rightarrow> Some ('''', Some (DataEncodingError msg), None)
                 | Inr s \<Rightarrow>
                     (case WriteString_err env s of
                        Some msg \<Rightarrow> Some ('''', Some (SystemError msg), None)
                      | None \<Rightarrow>
                          (case bufio_Flush_err env s of
                             Some msg \<Rightarrow> Some ('''', Some (SystemError msg), None)
                           | None \<Rightarrow> Some ('''', None, Some s)))))
      in
        if \<not> WithoutHeader options then
          (case fill_header (\<lambda>c. table_NewField c Centering) (Header view) 0
                  (replicate fieldLen \<lparr>t_Contents = '''', t_Alignment = NotAligned\<rparr>) of
             None \<Rightarrow> None
           | Some hfields \<Rightarrow> body (e\<lparr>e_header := Some hfields\<rparr>))
        else if RecordLen view < 1 then Some ('''', Some DataEmpty, None)
        else body e)"

text \<open>\<open>encodeText\<close>: the switch on the format, then the table.\<close>

definition encodeText ::
  "Context \<Rightarrow> Text_env \<Rightarrow> ('i, 'f, 'd) Formatters \<Rightarrow> ('i, 'f, 'd) View \<Rightarrow> ExportOptions
     \<Rightarrow> (string \<times> Error option \<times> string option) option" where
  "encodeText ctx env fm view options =
     (case Format options of
        GFM \<Rightarrow> encodeText_table ctx env fm view options GFMTable False
      | ORG \<Rightarrow> encodeText_table ctx env fm view options OrgTable False
      | _ \<Rightarrow>
          if FieldLen view < 1 then Some (''Empty Fields'', Some EmptyResultSetError, None)
          else if RecordLen view < 1 then Some (''Empty RecordSet'', Some EmptyResultSetError, None)
          else encodeText_table ctx env fm view options PlainTable True)"


declare text_lines.simps [simp del]

section \<open>Line-wise rendering, as the specification words it\<close>

text \<open>
  The specification of the TEXT cell: the code points are split into line segments at
  each \<open>\\r\\n\<close>, \<open>\\r\<close> or \<open>\\n\<close>; \<open>skip_LF\<close> drops the \<open>\\n\<close> that completes a
  \<open>\\r\\n\<close>.
\<close>

definition skip_LF :: "rune list \<Rightarrow> rune list" where
  "skip_LF rs = (case rs of [] \<Rightarrow> [] | n # rest \<Rightarrow> if n = 0x0A then rest else rs)"

function split_lines :: "rune list \<Rightarrow> rune list list" where
  "split_lines [] = [[]]"
| "split_lines (r # rs) =
     (if r = 0x0D then [] # split_lines (skip_LF rs)
      else if r = 0x0A then [] # split_lines rs
      else (r # hd (split_lines rs)) # tl (split_lines rs))"
  by pat_completeness auto
termination
  by (relation "measure length") (auto simp: skip_LF_def split: list.splits)

text \<open>
  Each non-empty segment is wrapped in the effect on its own, an empty one stays empty,
  and the segments are joined by a plain \<open>\\n\<close>.
\<close>

definition wrap_segment ::
  "(Effect \<Rightarrow> string \<Rightarrow> string) \<Rightarrow> (rune \<Rightarrow> string) \<Rightarrow> Effect \<Rightarrow> rune list \<Rightarrow> string" where
  "wrap_segment render wr effect seg =
     (if seg = [] then [] else render effect (concat (map wr seg)))"

fun join_lines :: "string list \<Rightarrow> string" where
  "join_lines [] = []"
| "join_lines [s] = s"
| "join_lines (s # t # ss) = s @ [CHR 0x0A] @ join_lines (t # ss)"

definition render_per_line ::
  "(Effect \<Rightarrow> string \<Rightarrow> string) \<Rightarrow> (rune \<Rightarrow> string) \<Rightarrow> Effect \<Rightarrow> rune list \<Rightarrow> string" where
  "render_per_line render wr effect runes =
     join_lines (map (wrap_segment render wr effect) (split_lines runes))"


section \<open>Well-formed views and sample data\<close>

text \<open>
  The view invariant of the specification: every record has as many cells as the header
  has fields, and every cell holds at least its value (element 0).
\<close>

definition wf_view :: "('i, 'f, 'd) View \<Rightarrow> bool" where
  "wf_view view \<longleftrightarrow>
     (\<forall>rcd \<in> set (RecordSet view).
        length rcd = FieldLen view \<and> (\<forall>cell \<in> set rcd. cell \<noteq> []))"

text \<open>\<open>NewExportOptions\<close> of flags.go; the delimiter is the comma.\<close>

definition NewExportOptions :: ExportOptions where
  "NewExportOptions =
     \<lparr>StripEndingLineBreak = False,
      Format = TEXT,
      Encoding = UTF8,
      Delimiter = 0x2C,
      DelimiterPositions = None,
      SingleLine = False,
      WithoutHeader = False,
      LineBreak = LF,
      EncloseAll = False,
      JsonEscape = Backslash,
      PrettyPrint = False,
      EastAsianEncoding = False,
      CountDiacriticalSign = False,
      CountFormatCode = False,
      Color = False\<rparr>"

text \<open>
  Sample data for the concrete instances below: a writer that never fails, simple
  stand-ins for the formatters, a context that is never canceled and one that is canceled
  from the start, and the two-column view of the specification's first scenario.
\<close>

definition ok_writer :: "('h, 'r) Writer" where
  "ok_writer = \<lparr>NewWriter_err = (\<lambda>_. None), Write_err = (\<lambda>_ _. None), Flush_err = (\<lambda>_. None)\<rparr>"

definition sample_formatters :: "(int, int, int) Formatters" where
  "sample_formatters =
     \<lparr>Integer_String = (\<lambda>i. if i = 1 then ''1'' else ''2''),
      Float_String = (\<lambda>_. ''0.5''),
      Boolean_String = FormatBool,
      Datetime_Format = (\<lambda>_. ''2006-01-02T15:04:05Z'')\<rparr>"

definition background :: Context where
  "background = (\<lambda>_. None)"

definition canceled_context :: Context where
  "canceled_context = (\<lambda>_. Some Canceled)"

definition users :: "(int, int, int) View" where
  "users =
     \<lparr>Header = [\<lparr>Column = ''id''\<rparr>, \<lparr>Column = ''name''\<rparr>],
      RecordSet = [[[Integer 1], [String ''Alice'']], [[Integer 2], [String ''Bob'']]]\<rparr>"

definition no_users :: "(int, int, int) View" where
  "no_users = \<lparr>Header = [\<lparr>Column = ''id''\<rparr>, \<lparr>Column = ''name''\<rparr>], RecordSet = []\<rparr>"


definition failing_writer :: "('h, 'r) Writer" where
  "failing_writer =
     \<lparr>NewWriter_err = (\<lambda>_. Some ''unsupported encoding''),
      Write_err = (\<lambda>_ _. None), Flush_err = (\<lambda>_. None)\<rparr>"

text \<open>
  A sample environment of the text encoder: the palette wraps a line in brackets, strings
  are ASCII (one byte per code point), and the table encoder and the output never fail.
\<close>

definition sample_text_env :: Text_env where
  "sample_text_env =
     \<lparr>Render = (\<lambda>effect s. ''<'' @ s @ ''>''),
      runes_of = map (\<lambda>c. of_nat (of_char c)),
      WriteRune = (\<lambda>r. [char_of (unat r)]),
      Encode = (\<lambda>e. Inr (concat (map (\<lambda>r. concat (map t_Contents r)) (e_recordSet e)))),
      WriteString_err = (\<lambda>_. None),
      bufio_Flush_err = (\<lambda>_. None)\<rparr>"


text \<open>
  The TEXT cell as the specification words it. \<open>effect_of_kind\<close> is the palette's
  effect for a value's kind in the plain text table, and \<open>text_cell\<close> is the table field
  of a cell: the value's string rendered line by line in the effect of the value's kind,
  with the alignment \<open>ConvertFieldContents\<close> gives.
\<close>

fun effect_of_kind :: "Kind \<Rightarrow> Effect" where
  "effect_of_kind KString = StringEffect"
| "effect_of_kind KInteger = NumberEffect"
| "effect_of_kind KFloat = NumberEffect"
| "effect_of_kind KBoolean = BooleanEffect"
| "effect_of_kind KTernary = TernaryEffect"
| "effect_of_kind KDatetime = DatetimeEffect"
| "effect_of_kind KNull = NullEffect"

definition text_cell ::
  "Text_env \<Rightarrow> ('i, 'f, 'd) Formatters \<Rightarrow> ('i, 'f, 'd) Primary list \<Rightarrow> table_Field" where
  "text_cell env fm cell =
     \<lparr>t_Contents =
        render_per_line (Render env) (WriteRune env) (effect_of_kind (kind_of (hd cell)))
          (runes_of env (fst (ConvertFieldContents fm (hd cell) True))),
      t_Alignment = snd (snd (ConvertFieldContents fm (hd cell) True))\<rparr>"

text \<open>A one-record view whose second cell holds a line break (\<open>\\r\\n\<close>).\<close>

definition memo :: "(int, int, int) View" where
  "memo =
     \<lparr>Header = [\<lparr>Column = ''id''\<rparr>, \<lparr>Column = ''note''\<rparr>],
      RecordSet = [[[Integer 1], [String (''ab'' @ [CHR 0x0D, CHR 0x0A] @ ''c'')]]]\<rparr>"



section \<open>Flags and the format setters (lib/cmd/flags.go)\<close>

text \<open>
  \<open>type Flags struct\<close>. The \<open>float64\<close> of \<open>WaitTimeout\<close> is kept abstract (no setter
  modelled here computes with it); \<open>LimitRecursion\<close> is an \<open>int64\<close> and \<open>CPU\<close> an \<open>int\<close>.
\<close>

record 't Flags =
  Repository :: string
  Location :: string
  DatetimeFormat :: "string list"
  AnsiQuotes :: bool
  WaitTimeout :: 't
  ImportOptions :: ImportOptions
  ExportOptions :: ExportOptions
  Quiet :: bool
  LimitRecursion :: "64 word"
  CPU :: "64 word"
  Stats :: bool

text \<open>The extension constants of flags.go that \<open>SetFormat\<close> compares with.\<close>

definition CsvExt :: string where "CsvExt = ''.csv''"
definition TsvExt :: string where "TsvExt = ''.tsv''"
definition JsonExt :: string where "JsonExt = ''.json''"
definition LtsvExt :: string where "LtsvExt = ''.ltsv''"
definition GfmExt :: string where "GfmExt = ''.md''"
definition OrgExt :: string where "OrgExt = ''.org''"

text \<open>
  \<open>filepath.Ext\<close> of the Go standard library, for the Unix path separator: the loop runs
  from the last byte towards the first, stops at a separator, and returns the suffix that
  starts at the first dot it meets. \<open>Ext_scan\<close> takes the bytes still to visit, last
  first, and the suffix already passed.
\<close>

fun Ext_scan :: "string \<Rightarrow> string \<Rightarrow> string" where
  "Ext_scan [] suffix = ''''"
| "Ext_scan (c # before) suffix =
     (if c = CHR ''/'' then ''''
      else if c = CHR ''.'' then c # suffix
      else Ext_scan before (c # suffix))"

definition Ext :: "string \<Rightarrow> string" where
  "Ext path = Ext_scan (rev path) []"

text \<open>
  \<open>strings.ToLower\<close> of the Go standard library on the ASCII range: the letters \<open>A\<close> to
  \<open>Z\<close> (bytes 65 to 90) move to lower case, every other byte below 128 stays. Bytes from
  128 on are left as they are here, where Go maps their code points; Go's result then
  still holds a code point outside ASCII, or an \<open>i\<close> or \<open>k\<close> (the only lower-case ASCII
  letters a code point outside ASCII maps to), so on such a string neither the model's
  result nor Go's equals one of the extensions \<open>SetFormat\<close> compares with.
\<close>

definition lower_byte :: "char \<Rightarrow> char" where
  "lower_byte c =
     (if 65 \<le> (of_char c :: nat) \<and> (of_char c :: nat) \<le> 90
      then char_of (of_char c + 32 :: nat) else c)"

definition ToLower :: "string \<Rightarrow> string" where
  "ToLower s = map lower_byte s"

text \<open>
  Modelled from the spec: \<open>ParseFormat\<close>, which is defined outside the sources. The
  specification gives the export formats by name, CSV, TSV, FIXED, JSON, LTSV, GFM, ORG and
  TEXT; a name is parsed to its format and the escape type is handed back as it came; any
  other string is an error. The setters below take the parser as a parameter, and this
  one is the instance used where a claim speaks of the names.
\<close>

definition ParseFormat :: "string \<Rightarrow> EscapeType \<Rightarrow> string + Format \<times> EscapeType" where
  "ParseFormat s et =
     (if s = ''CSV'' then Inr (CSV, et)
      else if s = ''TSV'' then Inr (TSV, et)
      else if s = ''FIXED'' then Inr (FIXED, et)
      else if s = ''JSON'' then Inr (JSON, et)
      else if s = ''LTSV'' then Inr (LTSV, et)
      else if s = ''GFM'' then Inr (GFM, et)
      else if s = ''ORG'' then Inr (ORG, et)
      else if s = ''TEXT'' then Inr (TEXT, et)
      else Inl ''format must be one of CSV|TSV|FIXED|JSON|LTSV|GFM|ORG|TEXT'')"

text \<open>
  \<open>(*Flags).SetImportFormat\<close>: the error returned (\<open>None\<close> for \<open>nil\<close>) and the flags
  afterwards. \<open>parse\<close> stands for \<open>ParseFormat\<close>.
\<close>

definition SetImportFormat ::
  "(string \<Rightarrow> EscapeType \<Rightarrow> string + Format \<times> EscapeType) \<Rightarrow> string \<Rightarrow> 't Flags
     \<Rightarrow> string option \<times> 't Flags" where
  "SetImportFormat parse s f =
     (case parse s (JsonEscape (ExportOptions f)) of
        Inl err \<Rightarrow> (Some ''import format must be one of CSV|TSV|FIXED|JSON|LTSV'', f)
      | Inr (fm, _) \<Rightarrow>
          (let ok = (None, f\<lparr>ImportOptions := (ImportOptions f)\<lparr>imp_Format := fm\<rparr>\<rparr>) in
             case fm of
               CSV \<Rightarrow> ok
             | TSV \<Rightarrow> ok
             | FIXED \<Rightarrow> ok
             | JSON \<Rightarrow> ok
             | LTSV \<Rightarrow> ok
             | _ \<Rightarrow> (Some ''import format must be one of CSV|TSV|FIXED|JSON|LTSV'', f)))"

text \<open>
  \<open>(*Flags).SetFormat\<close>. The local variable \<open>escape\<close> is declared without a value, so
  it holds the zero value of its type, \<open>Backslash\<close>, unless \<open>ParseFormat\<close> assigns it.
\<close>

definition SetFormat ::
  "(string \<Rightarrow> EscapeType \<Rightarrow> string + Format \<times> EscapeType) \<Rightarrow> string \<Rightarrow> string \<Rightarrow> 't Flags
     \<Rightarrow> string option \<times> 't Flags" where
  "SetFormat parse s outfile f =
     (let assign = (\<lambda>fm escape.
            (None, f\<lparr>ExportOptions := (ExportOptions f)\<lparr>Format := fm, JsonEscape := escape\<rparr>\<rparr>))
      in
        if s = '''' then
          (let ext = ToLower (Ext outfile) in
             if ext = CsvExt then assign CSV Backslash
             else if ext = TsvExt then assign TSV Backslash
             else if ext = JsonExt then assign JSON Backslash
             else if ext = LtsvExt then assign LTSV Backslash
             else if ext = GfmExt then assign GFM Backslash
             else if ext = OrgExt then assign ORG Backslash
             else (None, f))
        else
          (case parse s (JsonEscape (ExportOptions f)) of
             Inl err \<Rightarrow> (Some err, f)
           | Inr (fm, escape) \<Rightarrow> assign fm escape))"

text \<open>\<open>(*Flags).SetJsonEscape\<close>, with \<open>ParseJsonEscapeType\<close> as a parameter.\<close>

definition SetJsonEscape ::
  "(string \<Rightarrow> string + EscapeType) \<Rightarrow> string \<Rightarrow> 't Flags \<Rightarrow> string option \<times> 't Flags" where
  "SetJsonEscape parse s f =
     (case parse s of
        Inl err \<Rightarrow> (Some err, f)
      | Inr escape \<Rightarrow> (None, f\<lparr>ExportOptions := (ExportOptions f)\<lparr>JsonEscape := escape\<rparr>\<rparr>))"

text \<open>
  \<open>NewImportOptions\<close> and the flags of \<open>NewFlags\<close> with an empty environment; the
  number of CPUs and the abstract timeout are given.
\<close>

definition NewImportOptions :: ImportOptions where
  "NewImportOptions =
     \<lparr>imp_Format = CSV,
      imp_Delimiter = 0x2C,
      imp_DelimiterPositions = None,
      imp_SingleLine = False,
      imp_JsonQuery = '''',
      imp_Encoding = AUTO,
      imp_NoHeader = False,
      imp_WithoutNull = False\<rparr>"

definition NewFlags :: "'t \<Rightarrow> 64 word \<Rightarrow> 't Flags" where
  "NewFlags ten cpu =
     \<lparr>Repository = '''',
      Location = ''Local'',
      DatetimeFormat = [],
      AnsiQuotes = False,
      WaitTimeout = ten,
      ImportOptions = NewImportOptions,
      ExportOptions = NewExportOptions,
      Quiet = False,
      LimitRecursion = 1000,
      CPU = cpu,
      Stats = False\<rparr>"


text \<open>
  Modelled from the spec: \<open>ParseJsonEscapeType\<close>, which is defined outside the sources.
  The names are those of \<open>JsonEscapeTypeLiteral\<close> in flags.go, which the specification
  lists as the values of JSON_ESCAPE.
\<close>

definition ParseJsonEscapeType :: "string \<Rightarrow> string + EscapeType" where
  "ParseJsonEscapeType s =
     (if s = ''BACKSLASH'' then Inr Backslash
      else if s = ''HEX'' then Inr HexDigits
      else if s = ''HEXALL'' then Inr AllWithHexDigits
      else Inl ''json escape type must be one of BACKSLASH|HEX|HEXALL'')"


section \<open>The field index cache (lib/query/reference_scope.go)\<close>

definition LimitToUseFieldIndexSliceChache :: int where
  "LimitToUseFieldIndexSliceChache = 8"

text \<open>
  \<open>type FieldIndexCache struct\<close>. The map \<open>m\<close> is \<open>nil\<close> (\<open>None\<close>) or a hash map; the
  keys are query expressions compared with \<open>==\<close>, an arbitrary type here.
\<close>

record 'e FieldIndexCache =
  limitToUseSlice :: int
  m :: "('e \<rightharpoonup> int) option"
  exprs :: "'e list"
  indices :: "int list"

text \<open>\<open>NewFieldIndexCache\<close>: the capacity only reserves memory.\<close>

definition NewFieldIndexCache :: "int \<Rightarrow> int \<Rightarrow> 'e FieldIndexCache" where
  "NewFieldIndexCache initCap limit =
     \<lparr>limitToUseSlice = limit, m = None, exprs = [], indices = []\<rparr>"

text \<open>
  The loop of \<open>Get\<close> over the slice, \<open>for i := range c.exprs\<close>, as a walk down both
  slices: at a match it returns \<open>c.indices[i]\<close>, which panics (\<open>None\<close>) when \<open>indices\<close>
  is shorter than \<open>exprs\<close>.
\<close>

fun Get_slice :: "'e \<Rightarrow> 'e list \<Rightarrow> int list \<Rightarrow> (int \<times> bool) option" where
  "Get_slice expr [] is = Some (- 1, False)"
| "Get_slice expr (e # es) is =
     (if expr = e then (case is of [] \<Rightarrow> None | idx # _ \<Rightarrow> Some (idx, True))
      else Get_slice expr es (tl is))"

text \<open>\<open>(*FieldIndexCache).Get\<close>; a key missing from the map gives the zero index.\<close>

definition Get :: "'e FieldIndexCache \<Rightarrow> 'e \<Rightarrow> (int \<times> bool) option" where
  "Get c expr =
     (case m c of
        Some mp \<Rightarrow> (case mp expr of Some idx \<Rightarrow> Some (idx, True) | None \<Rightarrow> Some (0, False))
      | None \<Rightarrow> Get_slice expr (exprs c) (indices c))"

text \<open>
  The loop of \<open>Add\<close> that copies the slices into the new map,
  \<open>c.m[c.exprs[i]] = c.indices[i]\<close>; it panics when \<open>indices\<close> is the shorter slice.
\<close>

fun Add_copy :: "'e list \<Rightarrow> int list \<Rightarrow> ('e \<rightharpoonup> int) \<Rightarrow> ('e \<rightharpoonup> int) option" where
  "Add_copy [] is mp = Some mp"
| "Add_copy (e # es) [] mp = None"
| "Add_copy (e # es) (idx # is) mp = Add_copy es is (mp(e \<mapsto> idx))"

text \<open>\<open>(*FieldIndexCache).Add\<close>: the cache afterwards, \<open>None\<close> for a panic.\<close>

definition Add :: "'e \<Rightarrow> int \<Rightarrow> 'e FieldIndexCache \<Rightarrow> 'e FieldIndexCache option" where
  "Add expr idx c =
     (let upgraded =
            (if m c = None \<and> limitToUseSlice c \<le> int (length (exprs c))
             then map_option (\<lambda>mp. c\<lparr>m := Some mp, exprs := [], indices := []\<rparr>)
                    (Add_copy (exprs c) (indices c) Map.empty)
             else Some c)
      in
        case upgraded of
          None \<Rightarrow> None
        | Some c' \<Rightarrow>
            (case m c' of
               None \<Rightarrow> Some (c'\<lparr>exprs := exprs c' @ [expr], indices := indices c' @ [idx]\<rparr>)
             | Some mp \<Rightarrow> Some (c'\<lparr>m := Some (mp(expr \<mapsto> idx))\<rparr>)))"

text \<open>A sequence of \<open>Add\<close> calls, in order; a panic ends it.\<close>

fun Add_all :: "('e \<times> int) list \<Rightarrow> 'e FieldIndexCache \<Rightarrow> 'e FieldIndexCache option" where
  "Add_all [] c = Some c"
| "Add_all ((expr, idx) # ps) c =
     (case Add expr idx c of None \<Rightarrow> None | Some c' \<Rightarrow> Add_all ps c')"


text \<open>Sample data: nine field references and the indices they resolve to.\<close>

definition nine_fields :: "(string \<times> int) list" where
  "nine_fields =
     [(''a'', 0), (''b'', 1), (''c'', 2), (''d'', 3), (''e'', 4), (''f'', 5), (''g'', 6),
      (''h'', 7), (''i'', 8)]"


section \<open>The reference scope (lib/query/reference_scope.go)\<close>

text \<open>
  Modelled from the spec: \<open>VariableMap\<close> and its methods \<open>Add\<close>, \<open>Get\<close> and \<open>Set\<close>,
  which are defined outside the sources. The specification describes the variables of a
  block scope as a mapping keyed by the (case-normalised) name; \<open>Add\<close> declares a name
  and fails when the name is already bound, \<open>Get\<close> looks a name up, and \<open>Set\<close> assigns
  to a name that is bound and reports whether it was.
\<close>

type_synonym ('k, 'v) VariableMap = "'k \<rightharpoonup> 'v"

datatype 'k ScopeError =
    UndeclaredVariableError 'k
  | VariableRedeclaredError 'k
  | EvaluationError string

definition VariableMap_Add ::
  "'k \<Rightarrow> 'v \<Rightarrow> ('k, 'v) VariableMap \<Rightarrow> 'k ScopeError + ('k, 'v) VariableMap" where
  "VariableMap_Add x v vm =
     (if vm x \<noteq> None then Inl (VariableRedeclaredError x) else Inr (vm(x \<mapsto> v)))"

definition VariableMap_Get :: "'k \<Rightarrow> ('k, 'v) VariableMap \<Rightarrow> 'v option" where
  "VariableMap_Get x vm = vm x"

definition VariableMap_Set ::
  "'k \<Rightarrow> 'v \<Rightarrow> ('k, 'v) VariableMap \<Rightarrow> bool \<times> ('k, 'v) VariableMap" where
  "VariableMap_Set x v vm = (if vm x \<noteq> None then (True, vm(x \<mapsto> v)) else (False, vm))"

text \<open>
  A \<open>BlockScope\<close> value holds four maps by reference, so its copies share them: a block
  scope is an address here, and the heap gives the variables of each block scope. (The
  temporary tables, cursors and functions of a block live beside its variables and are
  cleared with them; the operations below do not read them.) The heap also holds
  \<open>blockScopePool\<close> and the number of block scopes \<open>NewBlockScope\<close> has made, which is
  the next fresh address.
\<close>

type_synonym BlockScope = nat

record ('k, 'v) Heap =
  variables :: "BlockScope \<Rightarrow> ('k, 'v) VariableMap"
  blockScopePool :: "BlockScope list"
  allocated :: nat

text \<open>
  \<open>GetBlockScope\<close>. \<open>sync.Pool.Get\<close> may take any pooled scope out of the pool or, at
  its choice, call \<open>New\<close>; \<open>pick\<close> is that choice (a position in the pool, or \<open>None\<close>
  for a new scope, which is also what an empty or shorter pool gives).
\<close>

definition GetBlockScope :: "nat option \<Rightarrow> ('k, 'v) Heap \<Rightarrow> BlockScope \<times> ('k, 'v) Heap" where
  "GetBlockScope pick h =
     (let new = (allocated h,
                 h\<lparr>variables := (variables h)(allocated h := Map.empty),
                   allocated := Suc (allocated h)\<rparr>)
      in
        case pick of
          None \<Rightarrow> new
        | Some i \<Rightarrow>
            if i < length (blockScopePool h)
            then (blockScopePool h ! i,
                  h\<lparr>blockScopePool := take i (blockScopePool h) @ drop (Suc i) (blockScopePool h)\<rparr>)
            else new)"

text \<open>\<open>PutBlockScope\<close>: \<open>scope.Clear()\<close>, then the scope goes into the pool.\<close>

definition PutBlockScope :: "BlockScope \<Rightarrow> ('k, 'v) Heap \<Rightarrow> ('k, 'v) Heap" where
  "PutBlockScope scope h =
     h\<lparr>variables := (variables h)(scope := Map.empty),
       blockScopePool := scope # blockScopePool h\<rparr>"

text \<open>
  \<open>type ReferenceScope struct\<close>, reduced to its stack of block scopes: the transaction,
  the node scopes, the records and the other fields are copied or reset by
  \<open>CreateChild\<close> and take no part in the variable operations.
\<close>

record ReferenceScope =
  blocks :: "BlockScope list"

definition NewReferenceScopeWithBlock :: "BlockScope \<Rightarrow> ReferenceScope" where
  "NewReferenceScopeWithBlock scope = \<lparr>blocks = [scope]\<rparr>"

text \<open>
  \<open>CreateChild\<close>: a slice one longer, a block scope from the pool at index 0, the
  parent's blocks behind it.
\<close>

definition CreateChild ::
  "nat option \<Rightarrow> ReferenceScope \<Rightarrow> ('k, 'v) Heap \<Rightarrow> ReferenceScope \<times> ('k, 'v) Heap" where
  "CreateChild pick rs h =
     (case GetBlockScope pick h of (scope, h') \<Rightarrow> (\<lparr>blocks = scope # blocks rs\<rparr>, h'))"

text \<open>
  \<open>Global\<close> and \<open>CurrentBlock\<close>: \<open>rs.blocks[len(rs.blocks)-1]\<close> and \<open>rs.blocks[0]\<close>, which
  panic (\<open>None\<close>) on an empty slice.
\<close>

definition Global :: "ReferenceScope \<Rightarrow> BlockScope option" where
  "Global rs =
     (if blocks rs = [] then None else Some (blocks rs ! (length (blocks rs) - 1)))"

definition CurrentBlock :: "ReferenceScope \<Rightarrow> BlockScope option" where
  "CurrentBlock rs = (if blocks rs = [] then None else Some (blocks rs ! 0))"

definition CloseCurrentBlock :: "ReferenceScope \<Rightarrow> ('k, 'v) Heap \<Rightarrow> ('k, 'v) Heap option" where
  "CloseCurrentBlock rs h = map_option (\<lambda>scope. PutBlockScope scope h) (CurrentBlock rs)"

text \<open>
  \<open>DeclareVariableDirectly\<close>: \<open>rs.blocks[0].variables.Add(variable, val)\<close>. The result is
  \<open>None\<close> for a panic, and otherwise the error returned and the heap afterwards.
\<close>

definition DeclareVariableDirectly ::
  "ReferenceScope \<Rightarrow> 'k \<Rightarrow> 'v \<Rightarrow> ('k, 'v) Heap
     \<Rightarrow> ('k ScopeError option \<times> ('k, 'v) Heap) option" where
  "DeclareVariableDirectly rs x v h =
     (case CurrentBlock rs of
        None \<Rightarrow> None
      | Some scope \<Rightarrow>
          (case VariableMap_Add x v (variables h scope) of
             Inl e \<Rightarrow> Some (Some e, h)
           | Inr vm \<Rightarrow> Some (None, h\<lparr>variables := (variables h)(scope := vm)\<rparr>)))"

text \<open>
  \<open>DeclareVariable\<close>: \<open>rs.blocks[0].variables.Declare(ctx, rs, expr)\<close>. Modelled from the
  spec: \<open>VariableMap.Declare\<close>, defined outside the sources, evaluates the initial value
  of the declaration in the scope and adds the variable with it. \<open>Evaluate\<close> is a
  parameter: it may fail, with the message of its error, and it may change the heap.
\<close>

definition DeclareVariable ::
  "(('k, 'v) Heap \<Rightarrow> (string + 'v) \<times> ('k, 'v) Heap) \<Rightarrow> ReferenceScope \<Rightarrow> 'k \<Rightarrow> ('k, 'v) Heap
     \<Rightarrow> ('k ScopeError option \<times> ('k, 'v) Heap) option" where
  "DeclareVariable Evaluate rs x h =
     (case CurrentBlock rs of
        None \<Rightarrow> None
      | Some scope \<Rightarrow>
          (case Evaluate h of
             (Inl e, h') \<Rightarrow> Some (Some (EvaluationError e), h')
           | (Inr v, h') \<Rightarrow>
               (case VariableMap_Add x v (variables h' scope) of
                  Inl e \<Rightarrow> Some (Some e, h')
                | Inr vm \<Rightarrow> Some (None, h'\<lparr>variables := (variables h')(scope := vm)\<rparr>))))"

text \<open>\<open>GetVariable\<close>: the loop over \<open>rs.blocks\<close>, from index 0.\<close>

fun GetVariable_blocks ::
  "BlockScope list \<Rightarrow> 'k \<Rightarrow> ('k, 'v) Heap \<Rightarrow> 'k ScopeError + 'v" where
  "GetVariable_blocks [] x h = Inl (UndeclaredVariableError x)"
| "GetVariable_blocks (scope # rest) x h =
     (case VariableMap_Get x (variables h scope) of
        Some v \<Rightarrow> Inr v
      | None \<Rightarrow> GetVariable_blocks rest x h)"

definition GetVariable ::
  "ReferenceScope \<Rightarrow> 'k \<Rightarrow> ('k, 'v) Heap \<Rightarrow> 'k ScopeError + 'v" where
  "GetVariable rs x h = GetVariable_blocks (blocks rs) x h"

text \<open>
  The loop of \<open>SubstituteVariable\<close> and \<open>SubstituteVariableDirectly\<close>: the first block
  whose \<open>Set\<close> succeeds ends it.
\<close>

fun Substitute_blocks ::
  "BlockScope list \<Rightarrow> 'k \<Rightarrow> 'v \<Rightarrow> ('k, 'v) Heap \<Rightarrow> ('k ScopeError + 'v) \<times> ('k, 'v) Heap" where
  "Substitute_blocks [] x v h = (Inl (UndeclaredVariableError x), h)"
| "Substitute_blocks (scope # rest) x v h =
     (case VariableMap_Set x v (variables h scope) of
        (True, vm) \<Rightarrow> (Inr v, h\<lparr>variables := (variables h)(scope := vm)\<rparr>)
      | (False, _) \<Rightarrow> Substitute_blocks rest x v h)"

definition SubstituteVariableDirectly ::
  "ReferenceScope \<Rightarrow> 'k \<Rightarrow> 'v \<Rightarrow> ('k, 'v) Heap \<Rightarrow> ('k ScopeError + 'v) \<times> ('k, 'v) Heap" where
  "SubstituteVariableDirectly rs x v h = Substitute_blocks (blocks rs) x v h"

definition SubstituteVariable ::
  "(('k, 'v) Heap \<Rightarrow> (string + 'v) \<times> ('k, 'v) Heap) \<Rightarrow> ReferenceScope \<Rightarrow> 'k \<Rightarrow> ('k, 'v) Heap
     \<Rightarrow> ('k ScopeError + 'v) \<times> ('k, 'v) Heap" where
  "SubstituteVariable Evaluate rs x h =
     (case Evaluate h of
        (Inl e, h') \<Rightarrow> (Inl (EvaluationError e), h')
      | (Inr v, h') \<Rightarrow> Substitute_blocks (blocks rs) x v h')"

text \<open>
  A scope in use on a heap: it has a block, its blocks have been allocated and are not in
  the pool, and the scopes waiting in the pool are allocated, cleared, and each there once.
\<close>

definition scope_in_use :: "ReferenceScope \<Rightarrow> ('k, 'v) Heap \<Rightarrow> bool" where
  "scope_in_use rs h \<longleftrightarrow>
     blocks rs \<noteq> []
     \<and> (\<forall>b \<in> set (blocks rs). b < allocated h \<and> b \<notin> set (blockScopePool h))
     \<and> distinct (blockScopePool h)
     \<and> (\<forall>b \<in> set (blockScopePool h). b < allocated h \<and> variables h b = Map.empty)"

text \<open>
  Sample data: a global block that binds \<open>@a\<close> to 1, nothing in the pool; and an
  evaluator that yields 7 and leaves the heap alone.
\<close>

definition global_scope :: ReferenceScope where
  "global_scope = NewReferenceScopeWithBlock 0"

definition global_heap :: "(string, int) Heap" where
  "global_heap =
     \<lparr>variables = (\<lambda>_. Map.empty)(0 := [''a'' \<mapsto> 1]), blockScopePool = [], allocated = 1\<rparr>"

definition yields_seven :: "(string, int) Heap \<Rightarrow> (string + int) \<times> (string, int) Heap" where
  "yields_seven h = (Inr 7, h)"


section \<open>Properties\<close>

subsection \<open>The loops that fill the field slices\<close>

lemma fill_fields_range:
  "j + length cells \<le> length flds \<Longrightarrow> \<forall>c \<in> set cells. c \<noteq> [] \<Longrightarrow>
   fill_fields f cells j flds =
     Some (take j flds @ map (\<lambda>c. f (hd c)) cells @ drop (j + length cells) flds)"
proof (induction cells arbitrary: j flds)
  case Nil
  then show ?case by simp
next
  case (Cons cell cells)
  then obtain v vs where cell: "cell = v # vs" by (cases cell) auto
  from Cons.prems have j: "j < length flds" by simp
  have "fill_fields f cells (Suc j) (flds[j := f v]) =
     Some (take (Suc j) (flds[j := f v]) @ map (\<lambda>c. f (hd c)) cells
             @ drop (Suc j + length cells) (flds[j := f v]))"
    using Cons.prems by (intro Cons.IH) auto
  moreover have "take (Suc j) (flds[j := f v]) = take j flds @ [f v]"
    using j by (simp add: take_Suc_conv_app_nth)
  ultimately show ?case using j cell by simp
qed

lemma fill_fields_all:
  "length cells = length flds \<Longrightarrow> \<forall>c \<in> set cells. c \<noteq> [] \<Longrightarrow>
   fill_fields f cells 0 flds = Some (map (\<lambda>c. f (hd c)) cells)"
  using fill_fields_range [of 0 cells flds f] by simp

lemma fill_header_range:
  "i + length hs \<le> length flds \<Longrightarrow>
   fill_header f hs i flds =
     Some (take i flds @ map (\<lambda>h. f (Column h)) hs @ drop (i + length hs) flds)"
proof (induction hs arbitrary: i flds)
  case Nil
  then show ?case by simp
next
  case (Cons h hs)
  from Cons.prems have i: "i < length flds" by simp
  have "fill_header f hs (Suc i) (flds[i := f (Column h)]) =
     Some (take (Suc i) (flds[i := f (Column h)]) @ map (\<lambda>h. f (Column h)) hs
             @ drop (Suc i + length hs) (flds[i := f (Column h)]))"
    using Cons.prems by (intro Cons.IH) auto
  moreover have "take (Suc i) (flds[i := f (Column h)]) = take i flds @ [f (Column h)]"
    using i by (simp add: take_Suc_conv_app_nth)
  ultimately show ?case using i by simp
qed

lemma fill_header_all:
  "length hs = length flds \<Longrightarrow> fill_header f hs 0 flds = Some (map (\<lambda>h. f (Column h)) hs)"
  using fill_header_range [of 0 hs flds f] by simp

lemma csv_data_field_eq:
  "csv_data_field fm options v =
     \<lparr>Contents = fst (ConvertFieldContents fm v False),
      Quote = (EncloseAll options \<and> kind_of v \<in> {KString, KDatetime})\<rparr>"
  by (cases v) (simp_all add: csv_data_field_def csv_NewField_def)

lemma encodeCSV_records_rows:
  assumes "\<forall>rcd \<in> set recs. length rcd = length flds \<and> (\<forall>c \<in> set rcd. c \<noteq> [])"
  shows "\<exists>ret err n. n \<le> length recs \<and>
     encodeCSV_records ctx w fm options recs i flds out =
       Some (ret, err, out @ map (map (\<lambda>c. csv_data_field fm options (hd c))) (take n recs)) \<and>
     (ret = None \<and> (\<forall>k < length recs. \<not> canceled_at ctx (i + k) (i + k)) \<longrightarrow> n = length recs)"
  using assms
proof (induction recs arbitrary: i flds out)
  case Nil
  then show ?case by simp
next
  case (Cons rcd rest)
  let ?row = "map (\<lambda>c. csv_data_field fm options (hd c)) rcd"
  have fill: "fill_fields (csv_data_field fm options) rcd 0 flds = Some ?row"
    using Cons.prems by (intro fill_fields_all) auto
  show ?case
  proof (cases "canceled_at ctx i i")
    case True
    then have "encodeCSV_records ctx w fm options (rcd # rest) i flds out =
       Some (None, map_option ConvertContextError (ctx i), out @ map (map (\<lambda>c. csv_data_field fm options (hd c))) (take 0 (rcd # rest)))"
      by simp
    moreover have "\<not> (\<forall>k < length (rcd # rest). \<not> canceled_at ctx (i + k) (i + k))"
      using True by (auto intro: exI [of _ 0])
    ultimately show ?thesis by blast
  next
    case nc: False
    show ?thesis
    proof (cases "Write_err w out ?row")
      case (Some e)
      then have "encodeCSV_records ctx w fm options (rcd # rest) i flds out =
         Some (Some (SystemError e), None, out @ map (map (\<lambda>c. csv_data_field fm options (hd c))) (take 0 (rcd # rest)))"
        using nc fill by simp
      then show ?thesis by blast
    next
      case None
      have "\<forall>r \<in> set rest. length r = length ?row \<and> (\<forall>c \<in> set r. c \<noteq> [])"
        using Cons.prems by auto
      from Cons.IH [OF this, of "Suc i" "out @ [?row]"]
      obtain ret err n where n: "n \<le> length rest"
        and eq: "encodeCSV_records ctx w fm options rest (Suc i) ?row (out @ [?row]) =
           Some (ret, err, (out @ [?row]) @ map (map (\<lambda>c. csv_data_field fm options (hd c))) (take n rest))"
        and full: "ret = None \<and> (\<forall>k < length rest. \<not> canceled_at ctx (Suc i + k) (Suc i + k)) \<longrightarrow> n = length rest"
        by blast
      have "encodeCSV_records ctx w fm options (rcd # rest) i flds out =
         Some (ret, err, out @ map (map (\<lambda>c. csv_data_field fm options (hd c))) (take (Suc n) (rcd # rest)))"
        using nc fill None eq by simp
      moreover have "ret = None \<and> (\<forall>k < length (rcd # rest). \<not> canceled_at ctx (i + k) (i + k))
           \<longrightarrow> Suc n = length (rcd # rest)"
      proof
        assume a: "ret = None \<and> (\<forall>k < length (rcd # rest). \<not> canceled_at ctx (i + k) (i + k))"
        have "\<forall>k < length rest. \<not> canceled_at ctx (Suc i + k) (Suc i + k)"
        proof (intro allI impI)
          fix k assume "k < length rest"
          then have "Suc k < length (rcd # rest)" by simp
          with a have "\<not> canceled_at ctx (i + Suc k) (i + Suc k)" by blast
          then show "\<not> canceled_at ctx (Suc i + k) (Suc i + k)" by simp
        qed
        with a full show "Suc n = length (rcd # rest)" by simp
      qed
      moreover have "Suc n \<le> length (rcd # rest)" using n by simp
      ultimately show ?thesis by blast
    qed
  qed
qed

subsection \<open>Quoting in the CSV encoder\<close>

lemma wf_users: "wf_view users"
  by (simp add: wf_view_def users_def FieldLen_def)

text \<open>
  C1 (as amended). On a well-formed view, \<open>encodeCSV\<close> does not panic, and the data rows
  it hands to the CSV writer (all rows, or all but the header row when a header is
  written) are the first \<open>n\<close> records of the view, field by field: the contents are the
  rendered value, and the quote flag is set if and only if \<open>EncloseAll\<close> is set AND the
  value's kind is String or Datetime. All records are written when the call returns
  \<open>nil\<close> and no cancellation was observed.
\<close>

theorem encodeCSV_quotes_string_and_datetime_under_EncloseAll:
  assumes "wf_view view"
  shows "\<exists>err out n.
     encodeCSV ctx w fm view options = Some (err, out) \<and> n \<le> RecordLen view \<and>
     (if WithoutHeader options then out else tl out) =
       map (map (\<lambda>cell.
              \<lparr>Contents = fst (ConvertFieldContents fm (hd cell) False),
               Quote = (EncloseAll options \<and> kind_of (hd cell) \<in> {KString, KDatetime})\<rparr>))
         (take n (RecordSet view)) \<and>
     (err = None \<and> (\<forall>i < RecordLen view. \<not> canceled_at ctx i i) \<longrightarrow> n = RecordLen view)"
proof -
  let ?row = "map (\<lambda>cell. csv_data_field fm options (hd cell))"
  let ?zero = "replicate (FieldLen view) \<lparr>Contents = '''', Quote = False\<rparr>"
  let ?hdr = "map (\<lambda>h. csv_NewField (Column h) (EncloseAll options)) (Header view)"
  have row: "?row = map (\<lambda>cell.
              \<lparr>Contents = fst (ConvertFieldContents fm (hd cell) False),
               Quote = (EncloseAll options \<and> kind_of (hd cell) \<in> {KString, KDatetime})\<rparr>)"
    by (simp add: csv_data_field_eq)
  have finish: "\<exists>err out' n. encodeCSV_finish w (encodeCSV_records ctx w fm options (RecordSet view) 0 flds out) = Some (err, out')
      \<and> n \<le> RecordLen view \<and> out' = out @ map ?row (take n (RecordSet view))
      \<and> (err = None \<and> (\<forall>i < RecordLen view. \<not> canceled_at ctx i i) \<longrightarrow> n = RecordLen view)"
    if len: "length flds = FieldLen view" for flds out
  proof -
    have "\<forall>rcd \<in> set (RecordSet view). length rcd = length flds \<and> (\<forall>c \<in> set rcd. c \<noteq> [])"
      using assms len by (simp add: wf_view_def)
    from encodeCSV_records_rows [OF this, of ctx w fm options 0 out]
    obtain ret e n where n: "n \<le> length (RecordSet view)"
      and eq: "encodeCSV_records ctx w fm options (RecordSet view) 0 flds out =
           Some (ret, e, out @ map ?row (take n (RecordSet view)))"
      and full: "ret = None \<and> (\<forall>k < length (RecordSet view). \<not> canceled_at ctx k k) \<longrightarrow> n = length (RecordSet view)"
      by auto
    show ?thesis
    proof (cases ret)
      case (Some e')
      then show ?thesis using eq n by (auto simp: RecordLen_def)
    next
      case None
      then show ?thesis using eq n full
        by (cases "Flush_err w (out @ map ?row (take n (RecordSet view)))")
           (auto simp: RecordLen_def)
    qed
  qed
  show ?thesis
  proof (cases "NewWriter_err w (LineBreak options, Encoding options)")
    case (Some e)
    then show ?thesis by (auto simp: encodeCSV_def intro: exI [of _ 0])
  next
    case nw: None
    show ?thesis
    proof (cases "WithoutHeader options")
      case True
      show ?thesis
      proof (cases "RecordLen view < 1")
        case True
        then show ?thesis using nw \<open>WithoutHeader options\<close>
          by (auto simp: encodeCSV_def intro: exI [of _ 0])
      next
        case False
        from finish [of ?zero "[]"] show ?thesis
          using nw \<open>WithoutHeader options\<close> False unfolding row
          by (simp add: encodeCSV_def)
      qed
    next
      case False
      have hdr: "fill_header (\<lambda>c. csv_NewField c (EncloseAll options)) (Header view) 0 ?zero = Some ?hdr"
        by (intro fill_header_all) (simp add: FieldLen_def)
      show ?thesis
      proof (cases "Write_err w [] ?hdr")
        case (Some e)
        then show ?thesis using nw False hdr
          by (auto simp: encodeCSV_def intro: exI [of _ 0])
      next
        case None
        from finish [of ?hdr "[?hdr]"] show ?thesis
          using nw False hdr None unfolding row
          by (auto simp: encodeCSV_def FieldLen_def)
      qed
    qed
  qed
qed

theorem encodeCSV_quotes_witness:
  "wf_view users \<and>
   (\<exists>err out n.
     encodeCSV background ok_writer sample_formatters users
       (NewExportOptions\<lparr>Format := CSV, EncloseAll := True\<rparr>) = Some (err, out) \<and>
     n \<le> RecordLen users \<and>
     (if WithoutHeader (NewExportOptions\<lparr>Format := CSV, EncloseAll := True\<rparr>) then out
      else tl out) =
       map (map (\<lambda>cell.
              \<lparr>Contents = fst (ConvertFieldContents sample_formatters (hd cell) False),
               Quote = (EncloseAll (NewExportOptions\<lparr>Format := CSV, EncloseAll := True\<rparr>) \<and>
                        kind_of (hd cell) \<in> {KString, KDatetime})\<rparr>))
         (take n (RecordSet users)) \<and>
     (err = None \<and> (\<forall>i < RecordLen users. \<not> canceled_at background i i)
        \<longrightarrow> n = RecordLen users))"
  by (rule conjI [OF wf_users encodeCSV_quotes_string_and_datetime_under_EncloseAll [OF wf_users]])

text \<open>
  C1 as stated fails in both directions: with \<open>EncloseAll\<close> set, the Integer field
  \<open>1\<close> is written unquoted; with \<open>EncloseAll\<close> unset, the String field \<open>Alice\<close> is
  written unquoted.
\<close>

theorem encodeCSV_quote_counterexample:
  "encodeCSV background ok_writer sample_formatters users
        (NewExportOptions\<lparr>Format := CSV, EncloseAll := True\<rparr>) =
     Some (None,
       [[\<lparr>Contents = ''id'', Quote = True\<rparr>, \<lparr>Contents = ''name'', Quote = True\<rparr>],
        [\<lparr>Contents = ''1'', Quote = False\<rparr>, \<lparr>Contents = ''Alice'', Quote = True\<rparr>],
        [\<lparr>Contents = ''2'', Quote = False\<rparr>, \<lparr>Contents = ''Bob'', Quote = True\<rparr>]])
   \<and> \<not> (Quote (csv_data_field sample_formatters
                  (NewExportOptions\<lparr>Format := CSV, EncloseAll := True\<rparr>) (Integer 1))
          \<longleftrightarrow> EncloseAll (NewExportOptions\<lparr>Format := CSV, EncloseAll := True\<rparr>)
               \<or> kind_of (Integer 1 :: (int, int, int) Primary) \<in> {KString, KDatetime})
   \<and> encodeCSV background ok_writer sample_formatters users
        (NewExportOptions\<lparr>Format := CSV\<rparr>) =
     Some (None,
       [[\<lparr>Contents = ''id'', Quote = False\<rparr>, \<lparr>Contents = ''name'', Quote = False\<rparr>],
        [\<lparr>Contents = ''1'', Quote = False\<rparr>, \<lparr>Contents = ''Alice'', Quote = False\<rparr>],
        [\<lparr>Contents = ''2'', Quote = False\<rparr>, \<lparr>Contents = ''Bob'', Quote = False\<rparr>]])
   \<and> \<not> (Quote (csv_data_field sample_formatters
                  (NewExportOptions\<lparr>Format := CSV\<rparr>) (String ''Alice''))
          \<longleftrightarrow> EncloseAll (NewExportOptions\<lparr>Format := CSV\<rparr>)
               \<or> kind_of (String ''Alice'' :: (int, int, int) Primary) \<in> {KString, KDatetime})"
  by (simp add: encodeCSV_def background_def ok_writer_def sample_formatters_def users_def
        NewExportOptions_def FieldLen_def RecordLen_def canceled_at_def csv_data_field_def
        csv_NewField_def)

subsection \<open>Cancellation\<close>

lemma encodeCSV_records_return:
  "encodeCSV_records ctx w fm options recs i flds out = Some (Some e, err, out') \<Longrightarrow>
   \<exists>msg. e = SystemError msg"
  by (induction recs arbitrary: i flds out)
     (auto split: if_splits option.splits)

lemma encodeCSV_finish_error:
  assumes "encodeCSV_finish w (encodeCSV_records ctx w fm options recs i flds out0) = Some (Some e, out)"
  shows "\<exists>msg. e = SystemError msg"
proof (cases "encodeCSV_records ctx w fm options recs i flds out0")
  case None
  with assms show ?thesis by simp
next
  case (Some r)
  obtain ret err out' where r: "r = (ret, err, out')" by (cases r)
  show ?thesis
  proof (cases ret)
    case None
    with assms Some r show ?thesis by (auto split: option.splits)
  next
    case (Some e')
    with assms \<open>encodeCSV_records ctx w fm options recs i flds out0 = Some r\<close> r
    have "e' = e" by simp
    with Some \<open>encodeCSV_records ctx w fm options recs i flds out0 = Some r\<close> r
    show ?thesis by (auto dest: encodeCSV_records_return)
  qed
qed

lemma encodeCSV_never_context_error:
  assumes "encodeCSV ctx w fm view options = Some (Some e, out)"
  shows "e \<noteq> ContextCanceled \<and> e \<noteq> ContextDeadlineExceeded"
proof -
  from assms have "(\<exists>msg. e = SystemError msg) \<or> (\<exists>msg. e = DataEncodingError msg) \<or> e = DataEmpty"
    unfolding encodeCSV_def Let_def
    by (auto split: option.splits if_splits dest: encodeCSV_finish_error)
  then show ?thesis by auto
qed

lemma and_15_mod_16: "(i::nat) AND 15 = i mod 16"
proof -
  have "i AND mask 4 = take_bit 4 i" by (simp add: take_bit_eq_mask)
  moreover have "(mask 4 :: nat) = 15" by (simp add: mask_eq_exp_minus_1)
  ultimately show ?thesis by (simp add: take_bit_eq_mod)
qed

lemma canceled_at_iff: "canceled_at ctx i t \<longleftrightarrow> 16 dvd i \<and> ctx t \<noteq> None"
  by (simp add: canceled_at_def and_15_mod_16 dvd_eq_mod_eq_0)

lemma first_poll_step:
  assumes before: "\<forall>k<t0. ctx k = None" and after: "\<forall>k\<ge>t0. ctx k = Some c"
    and s: "16 dvd s" "t0 \<le> s" "i \<le> s" "\<forall>k. i \<le> k \<and> k < s \<and> 16 dvd k \<longrightarrow> k < t0"
  shows "canceled_at ctx i i \<longleftrightarrow> i = s" "canceled_at ctx i i \<Longrightarrow> ctx i = Some c"
proof -
  have c: "canceled_at ctx i i \<longleftrightarrow> 16 dvd i \<and> t0 \<le> i"
  proof -
    have "ctx i \<noteq> None \<longleftrightarrow> t0 \<le> i"
      using before after by (cases "t0 \<le> i") auto
    then show ?thesis by (simp add: canceled_at_iff)
  qed
  show "canceled_at ctx i i \<longleftrightarrow> i = s"
  proof
    assume "canceled_at ctx i i"
    with c have "16 dvd i" "t0 \<le> i" by simp_all
    with s(4) have "\<not> i < s" by auto
    with s(3) show "i = s" by simp
  next
    assume "i = s"
    with s(1,2) c show "canceled_at ctx i i" by simp
  qed
  show "canceled_at ctx i i \<Longrightarrow> ctx i = Some c"
    using c after by simp
qed

lemma encodeLTSV_records_cancel:
  assumes "\<forall>rcd \<in> set recs. length rcd = length flds \<and> (\<forall>c \<in> set rcd. c \<noteq> [])"
    and ok: "\<forall>out row. Write_err w out row = None"
    and before: "\<forall>k<t0. ctx k = None" and after: "\<forall>k\<ge>t0. ctx k = Some c"
    and "16 dvd s" "t0 \<le> s" "i \<le> s" "\<forall>k. i \<le> k \<and> k < s \<and> 16 dvd k \<longrightarrow> k < t0"
  shows "encodeLTSV_records ctx w fm recs i flds out =
     (if s < i + length recs
      then Some (Some (ConvertContextError c),
                 out @ map (map (\<lambda>cell. fst (ConvertFieldContents fm (hd cell) False)))
                         (take (s - i) recs))
      else Some (None, out @ map (map (\<lambda>cell. fst (ConvertFieldContents fm (hd cell) False))) recs))"
  using assms(1,7,8)
proof (induction recs arbitrary: i flds out)
  case Nil
  then show ?case by simp
next
  case (Cons rcd rest)
  let ?row = "map (\<lambda>cell. fst (ConvertFieldContents fm (hd cell) False)) rcd"
  note poll = first_poll_step [OF before after assms(5,6) Cons.prems(2,3)]
  have fill: "fill_fields (\<lambda>v. fst (ConvertFieldContents fm v False)) rcd 0 flds = Some ?row"
    using Cons.prems(1) by (intro fill_fields_all) auto
  show ?case
  proof (cases "canceled_at ctx i i")
    case True
    with poll have "i = s" "ctx i = Some c" by simp_all
    with True show ?thesis by simp
  next
    case False
    with poll(1) Cons.prems(2) have lt: "i < s" by simp
    have wf': "\<forall>r \<in> set rest. length r = length ?row \<and> (\<forall>c \<in> set r. c \<noteq> [])"
      using Cons.prems(1) by auto
    have s': "Suc i \<le> s" "\<forall>k. Suc i \<le> k \<and> k < s \<and> 16 dvd k \<longrightarrow> k < t0"
      using lt Cons.prems(3) by auto
    have step: "encodeLTSV_records ctx w fm (rcd # rest) i flds out =
        encodeLTSV_records ctx w fm rest (Suc i) ?row (out @ [?row])"
      using False fill ok by simp
    have "s - i = Suc (s - Suc i)" using lt by simp
    then have t: "take (s - i) (rcd # rest) = rcd # take (s - Suc i) rest"
      by simp
    show ?thesis
      unfolding step Cons.IH [OF wf' s'] t by simp
  qed
qed

lemma encodeCSV_records_cancel:
  assumes "\<forall>rcd \<in> set recs. length rcd = length flds \<and> (\<forall>c \<in> set rcd. c \<noteq> [])"
    and ok: "\<forall>out row. Write_err w out row = None"
    and before: "\<forall>k<t0. ctx k = None" and after: "\<forall>k\<ge>t0. ctx k = Some c"
    and "16 dvd s" "t0 \<le> s" "i \<le> s" "\<forall>k. i \<le> k \<and> k < s \<and> 16 dvd k \<longrightarrow> k < t0"
  shows "encodeCSV_records ctx w fm options recs i flds out =
     (if s < i + length recs
      then Some (None, Some (ConvertContextError c),
                 out @ map (map (\<lambda>cell. csv_data_field fm options (hd cell))) (take (s - i) recs))
      else Some (None, None, out @ map (map (\<lambda>cell. csv_data_field fm options (hd cell))) recs))"
  using assms(1,7,8)
proof (induction recs arbitrary: i flds out)
  case Nil
  then show ?case by simp
next
  case (Cons rcd rest)
  let ?row = "map (\<lambda>cell. csv_data_field fm options (hd cell)) rcd"
  note poll = first_poll_step [OF before after assms(5,6) Cons.prems(2,3)]
  have fill: "fill_fields (csv_data_field fm options) rcd 0 flds = Some ?row"
    using Cons.prems(1) by (intro fill_fields_all) auto
  show ?case
  proof (cases "canceled_at ctx i i")
    case True
    with poll have "i = s" "ctx i = Some c" by simp_all
    with True show ?thesis by simp
  next
    case False
    with poll(1) Cons.prems(2) have lt: "i < s" by simp
    have wf': "\<forall>r \<in> set rest. length r = length ?row \<and> (\<forall>c \<in> set r. c \<noteq> [])"
      using Cons.prems(1) by auto
    have s': "Suc i \<le> s" "\<forall>k. Suc i \<le> k \<and> k < s \<and> 16 dvd k \<longrightarrow> k < t0"
      using lt Cons.prems(3) by auto
    have step: "encodeCSV_records ctx w fm options (rcd # rest) i flds out =
        encodeCSV_records ctx w fm options rest (Suc i) ?row (out @ [?row])"
      using False fill ok by simp
    have "s - i = Suc (s - Suc i)" using lt by simp
    then have t: "take (s - i) (rcd # rest) = rcd # take (s - Suc i) rest"
      by simp
    show ?thesis
      unfolding step Cons.IH [OF wf' s'] t by simp
  qed
qed

lemma encodeLTSV_stops_at_next_multiple_of_16:
  assumes wf: "wf_view view"
    and nw: "\<forall>a. NewWriter_err w a = None" and ok: "\<forall>out row. Write_err w out row = None"
    and before: "\<forall>k<t0. ctx k = None" and after: "\<forall>k\<ge>t0. ctx k = Some c"
    and s: "16 dvd s" "t0 \<le> s" "\<forall>k. k < s \<and> 16 dvd k \<longrightarrow> k < t0"
    and len: "s < RecordLen view"
  shows "encodeLTSV ctx w fm view options =
     Some (Some (ConvertContextError c),
           map (map (\<lambda>cell. fst (ConvertFieldContents fm (hd cell) False)))
             (take s (RecordSet view)))"
proof -
  let ?zero = "replicate (FieldLen view) ''''"
  have h: "fill_header (\<lambda>c. c) (Header view) 0 ?zero = Some (map (\<lambda>h. Column h) (Header view))"
    by (intro fill_header_all) (simp add: FieldLen_def)
  have r: "\<forall>rcd \<in> set (RecordSet view). length rcd = length ?zero \<and> (\<forall>c \<in> set rcd. c \<noteq> [])"
    using wf by (simp add: wf_view_def)
  have s0: "0 \<le> s" "\<forall>k. 0 \<le> k \<and> k < s \<and> 16 dvd k \<longrightarrow> k < t0"
    using s(3) by auto
  have "encodeLTSV_records ctx w fm (RecordSet view) 0 ?zero [] =
     Some (Some (ConvertContextError c),
           map (map (\<lambda>cell. fst (ConvertFieldContents fm (hd cell) False)))
             (take s (RecordSet view)))"
    using encodeLTSV_records_cancel [OF r ok before after s(1,2) s0, of fm "[]"] len
    by (simp add: RecordLen_def)
  with h nw len show ?thesis
    by (simp add: encodeLTSV_def)
qed

lemma encodeCSV_loses_context_error:
  assumes wf: "wf_view view"
    and nw: "\<forall>a. NewWriter_err w a = None" and ok: "\<forall>out row. Write_err w out row = None"
    and fl: "\<forall>out. Flush_err w out = None"
    and before: "\<forall>k<t0. ctx k = None" and after: "\<forall>k\<ge>t0. ctx k = Some c"
    and s: "16 dvd s" "t0 \<le> s" "\<forall>k. k < s \<and> 16 dvd k \<longrightarrow> k < t0"
    and len: "s < RecordLen view"
  shows "encodeCSV ctx w fm view options =
     Some (None,
           (if WithoutHeader options then []
            else [map (\<lambda>h. csv_NewField (Column h) (EncloseAll options)) (Header view)])
           @ map (map (\<lambda>cell. csv_data_field fm options (hd cell))) (take s (RecordSet view)))"
proof -
  let ?zero = "replicate (FieldLen view) \<lparr>Contents = '''', Quote = False\<rparr>"
  let ?hdr = "map (\<lambda>h. csv_NewField (Column h) (EncloseAll options)) (Header view)"
  have h: "fill_header (\<lambda>c. csv_NewField c (EncloseAll options)) (Header view) 0 ?zero = Some ?hdr"
    by (intro fill_header_all) (simp add: FieldLen_def)
  have s0: "0 \<le> s" "\<forall>k. 0 \<le> k \<and> k < s \<and> 16 dvd k \<longrightarrow> k < t0"
    using s(3) by auto
  have loop: "encodeCSV_records ctx w fm options (RecordSet view) 0 flds out =
     Some (None, Some (ConvertContextError c),
           out @ map (map (\<lambda>cell. csv_data_field fm options (hd cell))) (take s (RecordSet view)))"
    if "length flds = FieldLen view" for flds out
  proof -
    have r: "\<forall>rcd \<in> set (RecordSet view). length rcd = length flds \<and> (\<forall>c \<in> set rcd. c \<noteq> [])"
      using wf that by (simp add: wf_view_def)
    show ?thesis
      using encodeCSV_records_cancel [OF r ok before after s(1,2) s0, of fm options out] len
      by (simp add: RecordLen_def)
  qed
  show ?thesis
  proof (cases "WithoutHeader options")
    case True
    with nw fl len loop [of ?zero "[]"] show ?thesis
      by (simp add: encodeCSV_def)
  next
    case False
    with nw ok fl h loop [of ?hdr "[?hdr]"] show ?thesis
      by (simp add: encodeCSV_def FieldLen_def)
  qed
qed

text \<open>
  C2 at a failing input. The record loops of all encoders stop at the first record index
  that is a multiple of 16 and at which the context is canceled, and the loop of
  \<open>encodeLTSV\<close> (as those of the fixed-length and text encoders) returns the
  converted context error from there. \<open>encodeCSV\<close> stores that error in \<open>err\<close> and
  leaves the loop, but the flush that follows assigns \<open>err\<close> again, and the function
  returns \<open>nil\<close>. With a context that is canceled before the call, on a view of two
  records and a writer that never fails, \<open>encodeCSV\<close> writes the header row only and
  returns \<open>nil\<close>, where \<open>encodeLTSV\<close> returns \<open>ContextCanceled\<close>.
\<close>

theorem encodeCSV_canceled_returns_nil:
  "encodeCSV canceled_context ok_writer sample_formatters users
        (NewExportOptions\<lparr>Format := CSV\<rparr>) =
     Some (None, [[\<lparr>Contents = ''id'', Quote = False\<rparr>, \<lparr>Contents = ''name'', Quote = False\<rparr>]])
   \<and> encodeLTSV canceled_context ok_writer sample_formatters users
        (NewExportOptions\<lparr>Format := LTSV\<rparr>) = Some (Some ContextCanceled, [])"
  by (simp add: encodeCSV_def encodeLTSV_def canceled_context_def ok_writer_def
        sample_formatters_def users_def NewExportOptions_def FieldLen_def RecordLen_def
        canceled_at_def csv_data_field_def csv_NewField_def)


subsection \<open>Views without records\<close>

lemma no_users_len: "RecordLen no_users = 0"
  by (simp add: RecordLen_def no_users_def)

text \<open>
  C9 (as amended). For a view with zero records: \<open>encodeLTSV\<close> returns \<open>DataEmpty\<close>
  before anything is written. When \<open>WithoutHeader\<close> is set, \<open>encodeCSV\<close> and
  \<open>encodeFixedLengthFormat\<close> return \<open>DataEmpty\<close> with nothing written, unless creating
  their writer fails first (CSV always creates it first, fixed-length only when delimiter
  positions are given), which returns a \<open>DataEncodingError\<close>; and \<open>encodeText\<close> returns
  \<open>DataEmpty\<close> when the format is GFM or ORG. For any other format, TEXT included,
  \<open>encodeText\<close> returns \<open>EmptyResultSetError\<close> with the message "Empty Fields" or
  "Empty RecordSet", whatever \<open>WithoutHeader\<close> is.
\<close>

theorem zero_records_DataEmpty:
  assumes "RecordLen view = 0"
  shows "encodeLTSV ctx wl fm view options = Some (Some DataEmpty, [])
   \<and> (WithoutHeader options \<longrightarrow>
        encodeCSV ctx wc fm view options =
          (case NewWriter_err wc (LineBreak options, Encoding options) of
             None \<Rightarrow> Some (Some DataEmpty, [])
           | Some msg \<Rightarrow> Some (Some (DataEncodingError msg), [])))
   \<and> (WithoutHeader options \<longrightarrow>
        encodeFixedLengthFormat ctx gp wx fm view options =
          (case DelimiterPositions options of
             None \<Rightarrow> Some (Some DataEmpty, [])
           | Some positions \<Rightarrow>
               (case NewWriter_err wx (positions, LineBreak options, Encoding options) of
                  None \<Rightarrow> Some (Some DataEmpty, [])
                | Some msg \<Rightarrow> Some (Some (DataEncodingError msg), []))))
   \<and> (WithoutHeader options \<and> Format options \<in> {GFM, ORG} \<longrightarrow>
        encodeText ctx env fm view options = Some ('''', Some DataEmpty, None))
   \<and> (Format options \<notin> {GFM, ORG} \<longrightarrow>
        encodeText ctx env fm view options =
          Some (if FieldLen view < 1 then ''Empty Fields'' else ''Empty RecordSet'',
                Some EmptyResultSetError, None))"
proof (intro conjI impI)
  show "encodeLTSV ctx wl fm view options = Some (Some DataEmpty, [])"
    using assms by (simp add: encodeLTSV_def)
next
  assume "WithoutHeader options"
  then show "encodeCSV ctx wc fm view options =
          (case NewWriter_err wc (LineBreak options, Encoding options) of
             None \<Rightarrow> Some (Some DataEmpty, [])
           | Some msg \<Rightarrow> Some (Some (DataEncodingError msg), []))"
    using assms by (simp add: encodeCSV_def split: option.splits)
next
  assume "WithoutHeader options"
  then show "encodeFixedLengthFormat ctx gp wx fm view options =
          (case DelimiterPositions options of
             None \<Rightarrow> Some (Some DataEmpty, [])
           | Some positions \<Rightarrow>
               (case NewWriter_err wx (positions, LineBreak options, Encoding options) of
                  None \<Rightarrow> Some (Some DataEmpty, [])
                | Some msg \<Rightarrow> Some (Some (DataEncodingError msg), [])))"
    using assms by (simp add: encodeFixedLengthFormat_def Let_def split: option.splits)
next
  assume "WithoutHeader options \<and> Format options \<in> {GFM, ORG}"
  then show "encodeText ctx env fm view options = Some ('''', Some DataEmpty, None)"
    using assms by (auto simp: encodeText_def encodeText_table_def Let_def)
next
  assume "Format options \<notin> {GFM, ORG}"
  then show "encodeText ctx env fm view options =
          Some (if FieldLen view < 1 then ''Empty Fields'' else ''Empty RecordSet'',
                Some EmptyResultSetError, None)"
    using assms by (cases "Format options") (simp_all add: encodeText_def)
qed

theorem zero_records_witness:
  "RecordLen no_users = 0
   \<and> encodeLTSV background ok_writer sample_formatters no_users
        (NewExportOptions\<lparr>Format := GFM, WithoutHeader := True\<rparr>) = Some (Some DataEmpty, [])
   \<and> encodeCSV background ok_writer sample_formatters no_users
        (NewExportOptions\<lparr>Format := GFM, WithoutHeader := True\<rparr>) = Some (Some DataEmpty, [])
   \<and> encodeFixedLengthFormat background (\<lambda>_. []) ok_writer sample_formatters no_users
        (NewExportOptions\<lparr>Format := GFM, WithoutHeader := True\<rparr>) = Some (Some DataEmpty, [])
   \<and> encodeText background sample_text_env sample_formatters no_users
        (NewExportOptions\<lparr>Format := GFM, WithoutHeader := True\<rparr>) = Some ('''', Some DataEmpty, None)
   \<and> encodeText background sample_text_env sample_formatters no_users
        (NewExportOptions\<lparr>WithoutHeader := True\<rparr>) =
      Some (''Empty RecordSet'', Some EmptyResultSetError, None)"
proof -
  let ?g = "NewExportOptions\<lparr>Format := GFM, WithoutHeader := True\<rparr>"
  let ?t = "NewExportOptions\<lparr>WithoutHeader := True\<rparr>"
  have g: "WithoutHeader ?g" "Format ?g \<in> {GFM, ORG}" "DelimiterPositions ?g = None"
    "NewWriter_err ok_writer (LineBreak ?g, Encoding ?g) = None"
    by (simp_all add: NewExportOptions_def ok_writer_def)
  have t: "Format ?t \<notin> {GFM, ORG}" "\<not> FieldLen no_users < 1"
    by (simp_all add: NewExportOptions_def FieldLen_def no_users_def)
  note zg = zero_records_DataEmpty [OF no_users_len, of background ok_writer sample_formatters ?g
          ok_writer "\<lambda>_. []" ok_writer sample_text_env]
  note zt = zero_records_DataEmpty [OF no_users_len, of background ok_writer sample_formatters ?t
          ok_writer "\<lambda>_. []" ok_writer sample_text_env]
  from zg have 1: "encodeLTSV background ok_writer sample_formatters no_users ?g = Some (Some DataEmpty, [])"
    by (rule conjunct1)
  from zg g have 2: "encodeCSV background ok_writer sample_formatters no_users ?g = Some (Some DataEmpty, [])"
    by (auto split: option.splits)
  from zg g have 3: "encodeFixedLengthFormat background (\<lambda>_. []) ok_writer sample_formatters no_users ?g
      = Some (Some DataEmpty, [])"
    by (auto split: option.splits)
  from zg g have 4: "encodeText background sample_text_env sample_formatters no_users ?g
      = Some ('''', Some DataEmpty, None)"
    by blast
  from zt t have 5: "encodeText background sample_text_env sample_formatters no_users ?t
      = Some (''Empty RecordSet'', Some EmptyResultSetError, None)"
    by simp
  from no_users_len 1 2 3 4 5 show ?thesis by blast
qed

text \<open>
  C9 as stated fails for \<open>encodeText\<close> in format TEXT: with \<open>WithoutHeader\<close> set and no
  records, it returns \<open>EmptyResultSetError\<close>, not \<open>DataEmpty\<close>. And \<open>encodeCSV\<close>
  returns a \<open>DataEncodingError\<close> when its writer cannot be created.
\<close>

theorem zero_records_counterexample:
  "RecordLen no_users = 0
   \<and> WithoutHeader (NewExportOptions\<lparr>WithoutHeader := True\<rparr>)
   \<and> Format (NewExportOptions\<lparr>WithoutHeader := True\<rparr>) = TEXT
   \<and> encodeText background sample_text_env sample_formatters no_users
        (NewExportOptions\<lparr>WithoutHeader := True\<rparr>) =
      Some (''Empty RecordSet'', Some EmptyResultSetError, None)
   \<and> encodeCSV background failing_writer sample_formatters no_users
        (NewExportOptions\<lparr>Format := CSV, WithoutHeader := True\<rparr>) =
      Some (Some (DataEncodingError ''unsupported encoding''), [])"
  by (simp add: encodeText_def encodeCSV_def no_users_def NewExportOptions_def RecordLen_def
        FieldLen_def failing_writer_def)


subsection \<open>Line-wise rendering of TEXT cells\<close>

lemma split_lines_not_Nil: "split_lines rs \<noteq> []"
  by (cases rs) auto

lemma split_lines_no_breaks:
  "seg \<in> set (split_lines rs) \<Longrightarrow> 0x0D \<notin> set seg \<and> 0x0A \<notin> set seg"
proof (induction rs arbitrary: seg rule: split_lines.induct)
  case 1
  then show ?case by simp
next
  case (2 r rs)
  show ?case
  proof (cases "r = 0x0D")
    case True
    with 2 show ?thesis by auto
  next
    case nr: False
    show ?thesis
    proof (cases "r = 0x0A")
      case True
      with 2 nr show ?thesis by auto
    next
      case False
      from split_lines_not_Nil [of rs] obtain s ss where s: "split_lines rs = s # ss"
        by (cases "split_lines rs") auto
      with "2.prems" nr False have "seg = r # s \<or> seg \<in> set ss" by simp
      moreover have "0x0D \<notin> set s \<and> 0x0A \<notin> set s" using "2.IH"(3) [OF nr False, of s] s by simp
      moreover have "seg \<in> set ss \<Longrightarrow> 0x0D \<notin> set seg \<and> 0x0A \<notin> set seg"
        using "2.IH"(3) [OF nr False, of seg] s by simp
      ultimately show ?thesis using nr False by auto
    qed
  qed
qed

lemma drop_skip_LF:
  assumes "pos < length runes"
  shows "drop (Suc (if pos + 1 < length runes \<and> runes ! (pos + 1) = 0x0A then pos + 1 else pos)) runes
         = skip_LF (drop (Suc pos) runes)"
proof (cases "pos + 1 < length runes")
  case True
  then have "drop (Suc pos) runes = runes ! (pos + 1) # drop (Suc (Suc pos)) runes"
    by (simp add: Cons_nth_drop_Suc)
  then show ?thesis using True by (simp add: skip_LF_def)
next
  case False
  then show ?thesis by (simp add: skip_LF_def)
qed

lemma text_lines_drop:
  "\<forall>r. wr r \<noteq> [] \<Longrightarrow> text_lines render wr effect runes pos line out =
     out @ (if line = [] then
              join_lines (map (wrap_segment render wr effect) (split_lines (drop pos runes)))
            else
              join_lines (render effect (line @ concat (map wr (hd (split_lines (drop pos runes)))))
                          # map (wrap_segment render wr effect) (tl (split_lines (drop pos runes)))))"
proof (induction render wr effect runes pos line out rule: text_lines.induct)
  case (1 render wr effect runes pos line out)
  show ?case
  proof (cases "length runes \<le> pos")
    case True
    then show ?thesis
      by (subst text_lines.simps) (simp add: wrap_segment_def)
  next
    case False
    then have pos: "pos < length runes" by simp
    then have d: "drop pos runes = runes ! pos # drop (Suc pos) runes"
      by (simp add: Cons_nth_drop_Suc)
    let ?rest = "drop (Suc pos) runes"
    obtain s ss where s: "split_lines ?rest = s # ss"
      using split_lines_not_Nil [of ?rest] by (cases "split_lines ?rest") auto
    obtain s' ss' where s': "split_lines (skip_LF ?rest) = s' # ss'"
      using split_lines_not_Nil [of "skip_LF ?rest"] by (cases "split_lines (skip_LF ?rest)") auto
    show ?thesis
    proof (cases "runes ! pos = 0x0D")
      case True
      show ?thesis
        apply (subst text_lines.simps)
        using False True "1.IH"(1) [OF False True "1.prems"] drop_skip_LF [OF pos] d s'
        by (simp add: wrap_segment_def)
    next
      case nr: False
      show ?thesis
      proof (cases "runes ! pos = 0x0A")
        case True
        show ?thesis
          apply (subst text_lines.simps)
          using False nr True "1.IH"(2) [OF False nr True "1.prems"] d s
          by (simp add: wrap_segment_def)
      next
        case nl: False
        show ?thesis
          apply (subst text_lines.simps)
          using False nr nl "1.IH"(3) [OF False nr nl "1.prems"] d s "1.prems"
          by (simp add: wrap_segment_def)
      qed
    qed
  qed
qed

lemma ConvertFieldContents_text_effect:
  "fst (snd (ConvertFieldContents fm v True)) = effect_of_kind (kind_of v)"
  by (cases v) simp_all

lemma text_cell_string_per_line:
  "\<forall>r. WriteRune env r \<noteq> [] \<Longrightarrow> Format options = TEXT \<Longrightarrow>
     text_cell_string env options effect str =
       render_per_line (Render env) (WriteRune env) effect (runes_of env str)"
  using text_lines_drop [of "WriteRune env" "Render env" effect "runes_of env str" 0 "[]" "[]"]
  by (simp add: text_cell_string_def render_per_line_def)

lemma text_field_eq:
  assumes "\<forall>r. WriteRune env r \<noteq> []" "Format options = TEXT" "cell = v # vs"
    "ConvertFieldContents fm v True = (str, effect, align)"
  shows "table_NewField (text_cell_string env options effect str) align = text_cell env fm cell"
  using assms ConvertFieldContents_text_effect [of fm v]
  by (simp add: text_cell_string_per_line text_cell_def table_NewField_def)

lemma encodeText_fields_range:
  assumes "\<forall>r. WriteRune env r \<noteq> []" "Format options = TEXT"
  shows "\<forall>c \<in> set cells. c \<noteq> [] \<Longrightarrow> j + length cells \<le> length rfields
     \<Longrightarrow> length aligns = length rfields
     \<Longrightarrow> \<exists>aligns'. length aligns' = length aligns \<and>
           encodeText_fields env fm options True i cells j rfields aligns =
             Some (take j rfields @ map (text_cell env fm) cells @ drop (j + length cells) rfields,
                   aligns')"
proof (induction cells arbitrary: j rfields aligns)
  case Nil
  then show ?case by simp
next
  case (Cons cell cells)
  from Cons.prems obtain v vs where cell: "cell = v # vs" by (cases cell) auto
  obtain str effect align where cv: "ConvertFieldContents fm v True = (str, effect, align)"
    by (cases "ConvertFieldContents fm v True") auto
  let ?f = "table_NewField (text_cell_string env options effect str) align"
  have f: "?f = text_cell env fm cell"
    by (rule text_field_eq [OF assms cell cv])
  have j: "j < length rfields" using Cons.prems by simp
  have tk: "take (Suc j) (rfields[j := ?f]) @ map (text_cell env fm) cells
              @ drop (Suc j + length cells) (rfields[j := ?f])
            = take j rfields @ map (text_cell env fm) (cell # cells)
              @ drop (j + length (cell # cells)) rfields"
    using j f by (simp add: take_Suc_conv_app_nth)
  show ?case
  proof (cases "i = 0")
    case True
    from Cons.IH [of "Suc j" "rfields[j := ?f]" "aligns[j := align]"] Cons.prems
    obtain aligns' where a: "length aligns' = length aligns"
      and r: "encodeText_fields env fm options True i cells (Suc j) (rfields[j := ?f]) (aligns[j := align]) =
         Some (take (Suc j) (rfields[j := ?f]) @ map (text_cell env fm) cells
              @ drop (Suc j + length cells) (rfields[j := ?f]), aligns')"
      by auto
    show ?thesis
      using True j Cons.prems(3) a r tk by (simp add: cell cv)
  next
    case False
    from Cons.IH [of "Suc j" "rfields[j := ?f]" aligns] Cons.prems
    obtain aligns' where a: "length aligns' = length aligns"
      and r: "encodeText_fields env fm options True i cells (Suc j) (rfields[j := ?f]) aligns =
         Some (take (Suc j) (rfields[j := ?f]) @ map (text_cell env fm) cells
              @ drop (Suc j + length cells) (rfields[j := ?f]), aligns')"
      by auto
    show ?thesis
      using False j a r tk by (simp add: cell cv)
  qed
qed

lemma encodeText_fields_all:
  assumes "\<forall>r. WriteRune env r \<noteq> []" "Format options = TEXT"
    "\<forall>c \<in> set cells. c \<noteq> []" "length cells = length rfields" "length aligns = length rfields"
  shows "\<exists>aligns'. length aligns' = length aligns \<and>
           encodeText_fields env fm options True i cells 0 rfields aligns =
             Some (map (text_cell env fm) cells, aligns')"
  using encodeText_fields_range [OF assms(1,2,3), of 0 rfields aligns fm i] assms(4,5) by simp

lemma encodeText_records_rows:
  assumes "\<forall>r. WriteRune env r \<noteq> []" "Format options = TEXT"
  shows "\<forall>rcd \<in> set recs. length rcd = fieldLen \<and> (\<forall>c \<in> set rcd. c \<noteq> [])
     \<Longrightarrow> length aligns = fieldLen
     \<Longrightarrow> \<exists>err n aligns'. n \<le> length recs \<and>
           encodeText_records ctx env fm options True fieldLen recs i aligns e =
             Some (err, aligns',
                   e\<lparr>e_recordSet := e_recordSet e @ map (map (text_cell env fm)) (take n recs)\<rparr>) \<and>
           (err = None \<longleftrightarrow> (\<forall>k < length recs. \<not> canceled_at ctx (i + k) (i + k))) \<and>
           (err = None \<longrightarrow> n = length recs)"
proof (induction recs arbitrary: i aligns e)
  case Nil
  then show ?case by simp
next
  case (Cons rcd rest)
  show ?case
  proof (cases "canceled_at ctx i i")
    case True
    then have "ctx i \<noteq> None" by (simp add: canceled_at_def)
    with True show ?thesis
      by (intro exI [of _ "map_option ConvertContextError (ctx i)"] exI [of _ 0] exI [of _ aligns])
         auto
  next
    case False
    let ?zero = "replicate fieldLen \<lparr>t_Contents = '''', t_Alignment = NotAligned\<rparr>"
    from encodeText_fields_all [OF assms, of rcd ?zero aligns fm i] Cons.prems
    obtain aligns1 where a1: "length aligns1 = fieldLen"
      and f: "encodeText_fields env fm options True i rcd 0 ?zero aligns =
                Some (map (text_cell env fm) rcd, aligns1)"
      by auto
    let ?e = "e\<lparr>e_recordSet := e_recordSet e @ [map (text_cell env fm) rcd]\<rparr>"
    from Cons.IH [of aligns1 "Suc i" ?e] Cons.prems a1
    obtain err n aligns' where n: "n \<le> length rest"
      and r: "encodeText_records ctx env fm options True fieldLen rest (Suc i) aligns1 ?e =
             Some (err, aligns',
                   ?e\<lparr>e_recordSet := e_recordSet ?e @ map (map (text_cell env fm)) (take n rest)\<rparr>)"
      and c: "err = None \<longleftrightarrow> (\<forall>k < length rest. \<not> canceled_at ctx (Suc i + k) (Suc i + k))"
      and l: "err = None \<longrightarrow> n = length rest"
      by auto
    have c': "err = None \<longleftrightarrow> (\<forall>k < length (rcd # rest). \<not> canceled_at ctx (i + k) (i + k))"
      using c False by (auto simp: less_Suc_eq_0_disj)
    show ?thesis
      using False f r n c' l
      by (intro exI [of _ err] exI [of _ "Suc n"] exI [of _ aligns']) simp
  qed
qed

lemma wrap_segment_cong:
  assumes "\<forall>eff seg. 0x0D \<notin> set seg \<and> 0x0A \<notin> set seg
             \<longrightarrow> render' eff (concat (map wr seg)) = render eff (concat (map wr seg))"
    and "seg \<in> set (split_lines rs)"
  shows "wrap_segment render' wr effect seg = wrap_segment render wr effect seg"
  using assms split_lines_no_breaks [of seg rs] by (simp add: wrap_segment_def)

lemma text_cell_string_cong:
  assumes "\<forall>r. WriteRune env r \<noteq> []"
    and "\<forall>eff seg. 0x0D \<notin> set seg \<and> 0x0A \<notin> set seg
             \<longrightarrow> render' eff (concat (map (WriteRune env) seg))
                 = Render env eff (concat (map (WriteRune env) seg))"
  shows "text_cell_string (env\<lparr>Render := render'\<rparr>) options effect str =
         text_cell_string env options effect str"
proof (cases "Format options = TEXT")
  case True
  have "map (wrap_segment render' (WriteRune env) effect) (split_lines (runes_of env str)) =
        map (wrap_segment (Render env) (WriteRune env) effect) (split_lines (runes_of env str))"
    by (rule map_cong [OF refl]) (rule wrap_segment_cong [OF assms(2)])
  then have m: "render_per_line render' (WriteRune env) effect (runes_of env str) =
                render_per_line (Render env) (WriteRune env) effect (runes_of env str)"
    by (simp only: render_per_line_def)
  have a: "text_cell_string env options effect str =
           render_per_line (Render env) (WriteRune env) effect (runes_of env str)"
    by (rule text_cell_string_per_line [OF assms(1) True])
  have b: "text_cell_string (env\<lparr>Render := render'\<rparr>) options effect str =
           render_per_line render' (WriteRune env) effect (runes_of env str)"
    using text_cell_string_per_line [of "env\<lparr>Render := render'\<rparr>" options effect str] assms(1) True
    by simp
  show ?thesis by (simp only: a b m)
next
  case False
  then show ?thesis by (simp add: text_cell_string_def)
qed

lemma encodeText_fields_cong:
  assumes "\<forall>r. WriteRune env r \<noteq> []"
    and "\<forall>eff seg. 0x0D \<notin> set seg \<and> 0x0A \<notin> set seg
             \<longrightarrow> render' eff (concat (map (WriteRune env) seg))
                 = Render env eff (concat (map (WriteRune env) seg))"
  shows "encodeText_fields (env\<lparr>Render := render'\<rparr>) fm options isPlainTable i cells j rfields aligns =
         encodeText_fields env fm options isPlainTable i cells j rfields aligns"
proof (induction cells arbitrary: i j rfields aligns)
  case Nil
  show ?case by simp
next
  case (Cons cell cells)
  show ?case
    by (simp add: Cons.IH text_cell_string_cong [OF assms] split: list.splits prod.splits)
qed

lemma encodeText_records_cong:
  assumes "\<forall>r. WriteRune env r \<noteq> []"
    and "\<forall>eff seg. 0x0D \<notin> set seg \<and> 0x0A \<notin> set seg
             \<longrightarrow> render' eff (concat (map (WriteRune env) seg))
                 = Render env eff (concat (map (WriteRune env) seg))"
  shows "encodeText_records ctx (env\<lparr>Render := render'\<rparr>) fm options isPlainTable fieldLen recs i aligns e =
         encodeText_records ctx env fm options isPlainTable fieldLen recs i aligns e"
proof (induction recs arbitrary: i aligns e)
  case Nil
  show ?case by simp
next
  case (Cons rcd rest)
  show ?case
    by (simp add: Cons.IH encodeText_fields_cong [OF assms] split: option.splits)
qed

lemma encodeText_cong:
  assumes "\<forall>r. WriteRune env r \<noteq> []"
    and "\<forall>eff seg. 0x0D \<notin> set seg \<and> 0x0A \<notin> set seg
             \<longrightarrow> render' eff (concat (map (WriteRune env) seg))
                 = Render env eff (concat (map (WriteRune env) seg))"
  shows "encodeText ctx (env\<lparr>Render := render'\<rparr>) fm view options =
         encodeText ctx env fm view options"
proof -
  have "encodeText_table ctx (env\<lparr>Render := render'\<rparr>) fm view options tableFormat isPlainTable =
        encodeText_table ctx env fm view options tableFormat isPlainTable" for tableFormat isPlainTable
    by (simp add: encodeText_table_def encodeText_records_cong [OF assms] Let_def
          split: option.splits sum.splits)
  then show ?thesis
    by (simp only: encodeText_def)
qed

lemma encodeText_TEXT_table:
  assumes "Format options = TEXT" and "wf_view view" and "0 < FieldLen view"
    and "0 < RecordLen view" and "\<forall>r. WriteRune env r \<noteq> []"
    and "\<forall>i < RecordLen view. \<not> canceled_at ctx i i"
  shows "encodeText ctx env fm view options =
     (case Encode env
             \<lparr>e_Format = PlainTable,
              e_LineBreak = LineBreak options,
              e_EastAsianEncoding = EastAsianEncoding options,
              e_CountDiacriticalSign = CountDiacriticalSign options,
              e_CountFormatCode = CountFormatCode options,
              e_WithoutHeader = WithoutHeader options,
              e_Encoding = Encoding options,
              e_header = (if WithoutHeader options then None
                          else Some (map (\<lambda>h. table_NewField (Column h) Centering) (Header view))),
              e_recordSet = map (map (text_cell env fm)) (RecordSet view),
              e_alignments = None\<rparr> of
        Inl msg \<Rightarrow> Some ('''', Some (DataEncodingError msg), None)
      | Inr s \<Rightarrow>
          (case WriteString_err env s of
             Some msg \<Rightarrow> Some ('''', Some (SystemError msg), None)
           | None \<Rightarrow>
               (case bufio_Flush_err env s of
                  Some msg \<Rightarrow> Some ('''', Some (SystemError msg), None)
                | None \<Rightarrow> Some ('''', None, Some s))))"
proof -
  have recs: "\<forall>rcd \<in> set (RecordSet view). length rcd = FieldLen view \<and> (\<forall>c \<in> set rcd. c \<noteq> [])"
    using assms(2) by (simp add: wf_view_def)
  have loop: "\<exists>aligns. encodeText_records ctx env fm options True (FieldLen view) (RecordSet view) 0
                (replicate (FieldLen view) NotAligned) e =
              Some (None, aligns,
                    e\<lparr>e_recordSet := e_recordSet e @ map (map (text_cell env fm)) (RecordSet view)\<rparr>)"
    for e
  proof -
    from encodeText_records_rows [OF assms(5,1) recs, of "replicate (FieldLen view) NotAligned" ctx fm 0 e]
    obtain err n aligns' where n: "n \<le> length (RecordSet view)"
      and r: "encodeText_records ctx env fm options True (FieldLen view) (RecordSet view) 0
                (replicate (FieldLen view) NotAligned) e =
              Some (err, aligns',
                    e\<lparr>e_recordSet := e_recordSet e @ map (map (text_cell env fm)) (take n (RecordSet view))\<rparr>)"
      and c: "err = None \<longleftrightarrow> (\<forall>k < length (RecordSet view). \<not> canceled_at ctx (0 + k) (0 + k))"
      and l: "err = None \<longrightarrow> n = length (RecordSet view)"
      by auto
    from c assms(6) have "err = None" by (simp add: RecordLen_def)
    with l r show ?thesis by simp
  qed
  have hdr: "fill_header (\<lambda>c. table_NewField c Centering) (Header view) 0
               (replicate (FieldLen view) \<lparr>t_Contents = '''', t_Alignment = NotAligned\<rparr>) =
             Some (map (\<lambda>h. table_NewField (Column h) Centering) (Header view))"
    by (rule fill_header_all) (simp add: FieldLen_def)
  let ?e0 = "\<lparr>e_Format = PlainTable,
              e_LineBreak = LineBreak options,
              e_EastAsianEncoding = EastAsianEncoding options,
              e_CountDiacriticalSign = CountDiacriticalSign options,
              e_CountFormatCode = CountFormatCode options,
              e_WithoutHeader = WithoutHeader options,
              e_Encoding = Encoding options,
              e_header = None, e_recordSet = [], e_alignments = None\<rparr>"
  have tbl: "encodeText ctx env fm view options =
               encodeText_table ctx env fm view options PlainTable True"
    using assms(1,3,4) by (simp add: encodeText_def)
  show ?thesis
  proof (cases "WithoutHeader options")
    case True
    from loop [of ?e0] obtain aligns where
      "encodeText_records ctx env fm options True (FieldLen view) (RecordSet view) 0
                (replicate (FieldLen view) NotAligned) ?e0 =
              Some (None, aligns,
                    ?e0\<lparr>e_recordSet := e_recordSet ?e0 @ map (map (text_cell env fm)) (RecordSet view)\<rparr>)"
      ..
    then show ?thesis
      using True assms(1,4) by (simp add: tbl encodeText_table_def Let_def)
  next
    case False
    let ?e1 = "?e0\<lparr>e_header := Some (map (\<lambda>h. table_NewField (Column h) Centering) (Header view))\<rparr>"
    from loop [of ?e1] obtain aligns where
      "encodeText_records ctx env fm options True (FieldLen view) (RecordSet view) 0
                (replicate (FieldLen view) NotAligned) ?e1 =
              Some (None, aligns,
                    ?e1\<lparr>e_recordSet := e_recordSet ?e1 @ map (map (text_cell env fm)) (RecordSet view)\<rparr>)"
      ..
    then show ?thesis
      using False assms(1) by (simp add: tbl encodeText_table_def Let_def hdr)
  qed
qed

text \<open>
  C7. In TEXT format, every cell of every record that \<open>encodeText\<close> puts into the table is
  rendered line by line. The record loop \<open>encodeText_records\<close> appends, for each record
  it reaches, the row of the \<open>text_cell\<close>s of the record's cells, and it reaches every
  record unless the context is canceled; when the context is not canceled, the table
  \<open>encodeText\<close> hands to the table encoder holds exactly these rows for all records of the
  view. The string of a \<open>text_cell\<close> is the value's string split at each \<open>\\r\\n\<close>,
  \<open>\\r\<close> or \<open>\\n\<close>, every non-empty segment wrapped by the palette on its own in the
  effect \<open>ConvertFieldContents\<close> gives for the value's kind, the segments joined by a plain
  \<open>\\n\<close> outside the wrapped parts. The palette is only ever applied to segments without
  a line break: replacing \<open>Render\<close> by any function that agrees with it on the strings
  written from code points other than \<open>\\r\<close> and \<open>\\n\<close> leaves the result of
  \<open>encodeText\<close> unchanged, so no colour sequence spans a line boundary. (The view is
  well formed and has columns and records, as the TEXT branch requires; every code point
  is written as at least one byte, a fact of \<open>WriteRune\<close>.)
\<close>

theorem encodeText_renders_every_cell_per_line:
  assumes "Format options = TEXT" and "wf_view view" and "0 < FieldLen view"
    and "0 < RecordLen view" and "\<forall>r. WriteRune env r \<noteq> []"
  shows
    "(\<exists>err n aligns. n \<le> RecordLen view \<and>
        encodeText_records ctx env fm options True (FieldLen view) (RecordSet view) 0
            (replicate (FieldLen view) NotAligned) e =
          Some (err, aligns,
                e\<lparr>e_recordSet :=
                    e_recordSet e @ map (map (text_cell env fm)) (take n (RecordSet view))\<rparr>) \<and>
        (err = None \<longleftrightarrow> (\<forall>i < RecordLen view. \<not> canceled_at ctx i i)) \<and>
        (err = None \<longrightarrow> n = RecordLen view))
     \<and> ((\<forall>i < RecordLen view. \<not> canceled_at ctx i i) \<longrightarrow>
          encodeText ctx env fm view options =
            (case Encode env
                    \<lparr>e_Format = PlainTable,
                     e_LineBreak = LineBreak options,
                     e_EastAsianEncoding = EastAsianEncoding options,
                     e_CountDiacriticalSign = CountDiacriticalSign options,
                     e_CountFormatCode = CountFormatCode options,
                     e_WithoutHeader = WithoutHeader options,
                     e_Encoding = Encoding options,
                     e_header =
                       (if WithoutHeader options then None
                        else Some (map (\<lambda>h. table_NewField (Column h) Centering) (Header view))),
                     e_recordSet = map (map (text_cell env fm)) (RecordSet view),
                     e_alignments = None\<rparr> of
               Inl msg \<Rightarrow> Some ('''', Some (DataEncodingError msg), None)
             | Inr s \<Rightarrow>
                 (case WriteString_err env s of
                    Some msg \<Rightarrow> Some ('''', Some (SystemError msg), None)
                  | None \<Rightarrow>
                      (case bufio_Flush_err env s of
                         Some msg \<Rightarrow> Some ('''', Some (SystemError msg), None)
                       | None \<Rightarrow> Some ('''', None, Some s)))))
     \<and> (\<forall>cell.
          t_Contents (text_cell env fm cell) =
            join_lines
              (map (\<lambda>seg. if seg = [] then []
                           else Render env (fst (snd (ConvertFieldContents fm (hd cell) True)))
                                  (concat (map (WriteRune env) seg)))
                 (split_lines (runes_of env (fst (ConvertFieldContents fm (hd cell) True)))))
          \<and> fst (snd (ConvertFieldContents fm (hd cell) True)) = effect_of_kind (kind_of (hd cell))
          \<and> (\<forall>seg \<in> set (split_lines (runes_of env (fst (ConvertFieldContents fm (hd cell) True)))).
                0x0D \<notin> set seg \<and> 0x0A \<notin> set seg))
     \<and> (\<forall>render'.
          (\<forall>eff seg. 0x0D \<notin> set seg \<and> 0x0A \<notin> set seg
             \<longrightarrow> render' eff (concat (map (WriteRune env) seg))
                 = Render env eff (concat (map (WriteRune env) seg)))
          \<longrightarrow> encodeText ctx (env\<lparr>Render := render'\<rparr>) fm view options =
              encodeText ctx env fm view options)"
proof -
  have recs: "\<forall>rcd \<in> set (RecordSet view). length rcd = FieldLen view \<and> (\<forall>c \<in> set rcd. c \<noteq> [])"
    using assms(2) by (simp add: wf_view_def)
  have 1: "\<exists>err n aligns. n \<le> RecordLen view \<and>
        encodeText_records ctx env fm options True (FieldLen view) (RecordSet view) 0
            (replicate (FieldLen view) NotAligned) e =
          Some (err, aligns,
                e\<lparr>e_recordSet :=
                    e_recordSet e @ map (map (text_cell env fm)) (take n (RecordSet view))\<rparr>) \<and>
        (err = None \<longleftrightarrow> (\<forall>i < RecordLen view. \<not> canceled_at ctx i i)) \<and>
        (err = None \<longrightarrow> n = RecordLen view)"
    using encodeText_records_rows [OF assms(5,1) recs,
            of "replicate (FieldLen view) NotAligned" ctx fm 0 e]
    by (simp add: RecordLen_def)
  have 3: "t_Contents (text_cell env fm cell) =
            join_lines
              (map (\<lambda>seg. if seg = [] then []
                           else Render env (fst (snd (ConvertFieldContents fm (hd cell) True)))
                                  (concat (map (WriteRune env) seg)))
                 (split_lines (runes_of env (fst (ConvertFieldContents fm (hd cell) True)))))
          \<and> fst (snd (ConvertFieldContents fm (hd cell) True)) = effect_of_kind (kind_of (hd cell))
          \<and> (\<forall>seg \<in> set (split_lines (runes_of env (fst (ConvertFieldContents fm (hd cell) True)))).
                0x0D \<notin> set seg \<and> 0x0A \<notin> set seg)" for cell
  proof -
    have w: "wrap_segment (Render env) (WriteRune env) (effect_of_kind (kind_of (hd cell))) =
             (\<lambda>seg. if seg = [] then []
                    else Render env (fst (snd (ConvertFieldContents fm (hd cell) True)))
                           (concat (map (WriteRune env) seg)))"
      by (rule ext) (simp add: wrap_segment_def ConvertFieldContents_text_effect)
    show ?thesis
      using split_lines_no_breaks
      by (simp add: text_cell_def render_per_line_def w ConvertFieldContents_text_effect)
  qed
  show ?thesis
    using 1 3 encodeText_TEXT_table [OF assms] encodeText_cong [OF assms(5)]
    by (intro conjI allI impI) blast+
qed

theorem encodeText_renders_every_cell_per_line_witness:
  "Format NewExportOptions = TEXT \<and> wf_view memo \<and> 0 < FieldLen memo \<and> 0 < RecordLen memo
   \<and> (\<forall>r. WriteRune sample_text_env r \<noteq> [])
   \<and> (\<forall>i. \<not> canceled_at background i i)
   \<and> map (map (text_cell sample_text_env sample_formatters)) (RecordSet memo) =
       [[\<lparr>t_Contents = ''<1>'', t_Alignment = RightAligned\<rparr>,
         \<lparr>t_Contents = ''<ab>'' @ [CHR 0x0A] @ ''<c>'', t_Alignment = NotAligned\<rparr>]]
   \<and> encodeText background sample_text_env sample_formatters memo NewExportOptions =
       Some ('''', None, Some (''<1><ab>'' @ [CHR 0x0A] @ ''<c>''))"
proof -
  have f: "Format NewExportOptions = TEXT"
    by (simp add: NewExportOptions_def)
  have wv: "wf_view memo"
    by (simp add: wf_view_def memo_def FieldLen_def)
  have fl: "0 < FieldLen memo"
    by (simp add: memo_def FieldLen_def)
  have rl: "0 < RecordLen memo"
    by (simp add: memo_def RecordLen_def)
  have h: "\<forall>r. WriteRune sample_text_env r \<noteq> []"
    by (simp add: sample_text_env_def)
  have nc: "\<forall>i. \<not> canceled_at background i i"
    by (simp add: canceled_at_def background_def)
  then have nc': "\<forall>i < RecordLen memo. \<not> canceled_at background i i"
    by simp
  have cells: "map (map (text_cell sample_text_env sample_formatters)) (RecordSet memo) =
       [[\<lparr>t_Contents = ''<1>'', t_Alignment = RightAligned\<rparr>,
         \<lparr>t_Contents = ''<ab>'' @ [CHR 0x0A] @ ''<c>'', t_Alignment = NotAligned\<rparr>]]"
    by code_simp
  note t = encodeText_renders_every_cell_per_line [OF f wv fl rl h,
             of background sample_formatters "undefined"]
  note eq = t [THEN conjunct2, THEN conjunct1, THEN mp, OF nc', unfolded cells]
  have out: "encodeText background sample_text_env sample_formatters memo NewExportOptions =
       Some ('''', None, Some (''<1><ab>'' @ [CHR 0x0A] @ ''<c>''))"
    by (simp add: eq) (simp add: sample_text_env_def)
  from f wv fl rl h nc cells out show ?thesis
    by (intro conjI)
qed


subsection \<open>The format setters\<close>

text \<open>
  C5. \<open>SetImportFormat\<close> returns \<open>nil\<close> exactly when its argument parses to one of CSV,
  TSV, FIXED, JSON and LTSV, and then sets \<open>ImportOptions.Format\<close> to that format and
  changes nothing else; in every other case (the argument does not parse, or parses to
  GFM, ORG, TEXT or \<open>AutoSelect\<close>) it returns the error and leaves the flags unchanged.
  With the format names of the specification, the call succeeds exactly on the five
  names CSV, TSV, FIXED, JSON and LTSV, and the names GFM, ORG and TEXT are errors.
\<close>

theorem SetImportFormat_accepts_import_formats_only:
  "(fst (SetImportFormat parse s f) = None \<longleftrightarrow>
      (\<exists>fm esc. parse s (JsonEscape (ExportOptions f)) = Inr (fm, esc)
                 \<and> fm \<in> {CSV, TSV, FIXED, JSON, LTSV}))
   \<and> (\<forall>fm esc. parse s (JsonEscape (ExportOptions f)) = Inr (fm, esc)
          \<and> fm \<in> {CSV, TSV, FIXED, JSON, LTSV} \<longrightarrow>
        SetImportFormat parse s f =
          (None, f\<lparr>ImportOptions := (ImportOptions f)\<lparr>imp_Format := fm\<rparr>\<rparr>))
   \<and> (fst (SetImportFormat parse s f) \<noteq> None \<longrightarrow>
        SetImportFormat parse s f =
          (Some ''import format must be one of CSV|TSV|FIXED|JSON|LTSV'', f))
   \<and> (fst (SetImportFormat ParseFormat s f) = None \<longleftrightarrow>
        s \<in> {''CSV'', ''TSV'', ''FIXED'', ''JSON'', ''LTSV''})
   \<and> (s \<in> {''GFM'', ''ORG'', ''TEXT''} \<longrightarrow>
        SetImportFormat ParseFormat s f =
          (Some ''import format must be one of CSV|TSV|FIXED|JSON|LTSV'', f))"
proof (intro conjI)
  show "fst (SetImportFormat parse s f) = None \<longleftrightarrow>
      (\<exists>fm esc. parse s (JsonEscape (ExportOptions f)) = Inr (fm, esc)
                 \<and> fm \<in> {CSV, TSV, FIXED, JSON, LTSV})"
    by (auto simp: SetImportFormat_def Let_def split: sum.splits Format.splits)
  show "\<forall>fm esc. parse s (JsonEscape (ExportOptions f)) = Inr (fm, esc)
          \<and> fm \<in> {CSV, TSV, FIXED, JSON, LTSV} \<longrightarrow>
        SetImportFormat parse s f =
          (None, f\<lparr>ImportOptions := (ImportOptions f)\<lparr>imp_Format := fm\<rparr>\<rparr>)"
    by (auto simp: SetImportFormat_def Let_def)
  show "fst (SetImportFormat parse s f) \<noteq> None \<longrightarrow>
        SetImportFormat parse s f =
          (Some ''import format must be one of CSV|TSV|FIXED|JSON|LTSV'', f)"
    by (auto simp: SetImportFormat_def Let_def split: sum.splits Format.splits)
  show "fst (SetImportFormat ParseFormat s f) = None \<longleftrightarrow>
        s \<in> {''CSV'', ''TSV'', ''FIXED'', ''JSON'', ''LTSV''}"
    by (simp add: SetImportFormat_def ParseFormat_def Let_def)
  show "s \<in> {''GFM'', ''ORG'', ''TEXT''} \<longrightarrow>
        SetImportFormat ParseFormat s f =
          (Some ''import format must be one of CSV|TSV|FIXED|JSON|LTSV'', f)"
    by (auto simp: SetImportFormat_def ParseFormat_def Let_def)
qed

theorem SetImportFormat_witness:
  "SetImportFormat ParseFormat ''JSON'' (NewFlags () 4) =
     (None, (NewFlags () 4)\<lparr>ImportOptions := NewImportOptions\<lparr>imp_Format := JSON\<rparr>\<rparr>)
   \<and> SetImportFormat ParseFormat ''GFM'' (NewFlags () 4) =
     (Some ''import format must be one of CSV|TSV|FIXED|JSON|LTSV'', NewFlags () 4)
   \<and> fst (SetImportFormat ParseFormat ''gfm'' (NewFlags () 4)) \<noteq> None"
proof -
  let ?f = "NewFlags () 4 :: unit Flags"
  note j = SetImportFormat_accepts_import_formats_only [of ParseFormat "''JSON''" ?f]
  note g = SetImportFormat_accepts_import_formats_only [of ParseFormat "''GFM''" ?f]
  note l = SetImportFormat_accepts_import_formats_only [of ParseFormat "''gfm''" ?f]
  have p: "ParseFormat ''JSON'' (JsonEscape (ExportOptions ?f)) = Inr (JSON, Backslash)
           \<and> JSON \<in> {CSV, TSV, FIXED, JSON, LTSV}"
    by (simp add: ParseFormat_def NewFlags_def NewExportOptions_def)
  have io: "ImportOptions ?f = NewImportOptions"
    by (simp add: NewFlags_def)
  from j have "\<forall>fm esc. ParseFormat ''JSON'' (JsonEscape (ExportOptions ?f)) = Inr (fm, esc)
          \<and> fm \<in> {CSV, TSV, FIXED, JSON, LTSV} \<longrightarrow>
        SetImportFormat ParseFormat ''JSON'' ?f =
          (None, ?f\<lparr>ImportOptions := (ImportOptions ?f)\<lparr>imp_Format := fm\<rparr>\<rparr>)"
    by (elim conjE)
  then have "SetImportFormat ParseFormat ''JSON'' ?f =
          (None, ?f\<lparr>ImportOptions := (ImportOptions ?f)\<lparr>imp_Format := JSON\<rparr>\<rparr>)"
    using p by blast
  then have 1: "SetImportFormat ParseFormat ''JSON'' ?f =
     (None, ?f\<lparr>ImportOptions := NewImportOptions\<lparr>imp_Format := JSON\<rparr>\<rparr>)"
    by (simp only: io)
  have m: "''GFM'' \<in> {''GFM'', ''ORG'', ''TEXT''}" by simp
  from g have "''GFM'' \<in> {''GFM'', ''ORG'', ''TEXT''} \<longrightarrow>
        SetImportFormat ParseFormat ''GFM'' ?f =
          (Some ''import format must be one of CSV|TSV|FIXED|JSON|LTSV'', ?f)"
    by (elim conjE)
  with m have 2: "SetImportFormat ParseFormat ''GFM'' ?f =
     (Some ''import format must be one of CSV|TSV|FIXED|JSON|LTSV'', ?f)"
    by (rule rev_mp)
  have n: "''gfm'' \<notin> {''CSV'', ''TSV'', ''FIXED'', ''JSON'', ''LTSV''}" by simp
  from l have "fst (SetImportFormat ParseFormat ''gfm'' ?f) = None \<longleftrightarrow>
        ''gfm'' \<in> {''CSV'', ''TSV'', ''FIXED'', ''JSON'', ''LTSV''}"
    by (elim conjE)
  with n have 3: "fst (SetImportFormat ParseFormat ''gfm'' ?f) \<noteq> None"
    by (simp only: simp_thms)
  from 1 2 3 show ?thesis by (intro conjI)
qed

lemma Ext_scan_suffix:
  "CHR ''/'' \<notin> set xs \<Longrightarrow> CHR ''.'' \<notin> set xs \<Longrightarrow>
   Ext_scan (xs @ CHR ''.'' # before) suffix = CHR ''.'' # rev xs @ suffix"
  by (induction xs arbitrary: suffix) auto

lemma Ext_of_dotted:
  "CHR ''/'' \<notin> set e \<Longrightarrow> CHR ''.'' \<notin> set e \<Longrightarrow> Ext (stem @ ''.'' @ e) = ''.'' @ e"
  using Ext_scan_suffix [of "rev e" "rev stem" "[]"] by (simp add: Ext_def)

lemma lower_byte_dot: "lower_byte (CHR ''.'') = CHR ''.''"
  by (simp add: lower_byte_def)

lemma ParseFormat_names:
  "(name, fm') \<in> set [(''CSV'', CSV), (''TSV'', TSV), (''FIXED'', FIXED), (''JSON'', JSON),
                        (''LTSV'', LTSV), (''GFM'', GFM), (''ORG'', ORG), (''TEXT'', TEXT)] \<Longrightarrow>
   ParseFormat name et = Inr (fm', et)"
  by (auto simp: ParseFormat_def)

lemma ToLower_Ext_Result_CSV: "ToLower (Ext ''out/Result.CSV'') = ''.csv''"
  by code_simp

lemma ToLower_Ext_notes_txt:
  "ToLower (Ext ''notes.txt'') \<notin> {''.csv'', ''.tsv'', ''.json'', ''.ltsv'', ''.md'', ''.org''}"
  by code_simp

text \<open>
  C6. \<open>SetFormat\<close> with an empty format string never fails; it takes the extension of
  the output file name, lower-cased, and sets the export format to CSV for \<open>.csv\<close>, TSV
  for \<open>.tsv\<close>, JSON for \<open>.json\<close>, LTSV for \<open>.ltsv\<close>, GFM for \<open>.md\<close> and ORG for
  \<open>.org\<close>; with any other extension the flags stay as they were. The extension of
  \<open>stem.e\<close> is compared after each letter of \<open>e\<close> is lower-cased, so the match ignores
  case. With a non-empty format string, whatever format the parser accepts is set; with
  the format names of the specification, each of the eight names CSV, TSV, FIXED, JSON,
  LTSV, GFM, ORG and TEXT is accepted and sets its format.
\<close>

theorem SetFormat_infers_or_parses:
  "fst (SetFormat parse '''' outfile f) = None
   \<and> (ToLower (Ext outfile) = ''.csv'' \<longrightarrow>
        Format (ExportOptions (snd (SetFormat parse '''' outfile f))) = CSV)
   \<and> (ToLower (Ext outfile) = ''.tsv'' \<longrightarrow>
        Format (ExportOptions (snd (SetFormat parse '''' outfile f))) = TSV)
   \<and> (ToLower (Ext outfile) = ''.json'' \<longrightarrow>
        Format (ExportOptions (snd (SetFormat parse '''' outfile f))) = JSON)
   \<and> (ToLower (Ext outfile) = ''.ltsv'' \<longrightarrow>
        Format (ExportOptions (snd (SetFormat parse '''' outfile f))) = LTSV)
   \<and> (ToLower (Ext outfile) = ''.md'' \<longrightarrow>
        Format (ExportOptions (snd (SetFormat parse '''' outfile f))) = GFM)
   \<and> (ToLower (Ext outfile) = ''.org'' \<longrightarrow>
        Format (ExportOptions (snd (SetFormat parse '''' outfile f))) = ORG)
   \<and> (ToLower (Ext outfile) \<notin> {''.csv'', ''.tsv'', ''.json'', ''.ltsv'', ''.md'', ''.org''} \<longrightarrow>
        snd (SetFormat parse '''' outfile f) = f)
   \<and> (CHR ''/'' \<notin> set e \<and> CHR ''.'' \<notin> set e \<longrightarrow>
        ToLower (Ext (stem @ ''.'' @ e)) = ''.'' @ map lower_byte e)
   \<and> (s \<noteq> '''' \<and> parse s (JsonEscape (ExportOptions f)) = Inr (fm, esc) \<longrightarrow>
        fst (SetFormat parse s outfile f) = None
        \<and> Format (ExportOptions (snd (SetFormat parse s outfile f))) = fm)
   \<and> ((name, fm') \<in> set [(''CSV'', CSV), (''TSV'', TSV), (''FIXED'', FIXED), (''JSON'', JSON),
                            (''LTSV'', LTSV), (''GFM'', GFM), (''ORG'', ORG), (''TEXT'', TEXT)] \<longrightarrow>
        fst (SetFormat ParseFormat name outfile f) = None
        \<and> Format (ExportOptions (snd (SetFormat ParseFormat name outfile f))) = fm')"
proof -
  have none: "fst (SetFormat parse '''' outfile f) = None"
    by (simp add: SetFormat_def Let_def)
  have ext: "Format (ExportOptions (snd (SetFormat parse '''' outfile f))) = fm0"
    if "ToLower (Ext outfile) = x" and "(x, fm0) \<in> set [(''.csv'', CSV), (''.tsv'', TSV),
        (''.json'', JSON), (''.ltsv'', LTSV), (''.md'', GFM), (''.org'', ORG)]" for x fm0
    using that
    by (auto simp: SetFormat_def Let_def CsvExt_def TsvExt_def JsonExt_def LtsvExt_def
          GfmExt_def OrgExt_def)
  have other: "ToLower (Ext outfile) \<notin> {''.csv'', ''.tsv'', ''.json'', ''.ltsv'', ''.md'', ''.org''} \<longrightarrow>
        snd (SetFormat parse '''' outfile f) = f"
    by (simp add: SetFormat_def Let_def CsvExt_def TsvExt_def JsonExt_def LtsvExt_def
          GfmExt_def OrgExt_def)
  have fold: "CHR ''/'' \<notin> set e \<and> CHR ''.'' \<notin> set e \<longrightarrow>
        ToLower (Ext (stem @ ''.'' @ e)) = ''.'' @ map lower_byte e"
    using Ext_of_dotted [of e stem] by (simp add: ToLower_def lower_byte_dot)
  have explicit: "s \<noteq> '''' \<and> parse s (JsonEscape (ExportOptions f)) = Inr (fm, esc) \<longrightarrow>
        fst (SetFormat parse s outfile f) = None
        \<and> Format (ExportOptions (snd (SetFormat parse s outfile f))) = fm"
    by (simp add: SetFormat_def Let_def)
  have named: "(name, fm') \<in> set [(''CSV'', CSV), (''TSV'', TSV), (''FIXED'', FIXED), (''JSON'', JSON),
                            (''LTSV'', LTSV), (''GFM'', GFM), (''ORG'', ORG), (''TEXT'', TEXT)] \<longrightarrow>
        fst (SetFormat ParseFormat name outfile f) = None
        \<and> Format (ExportOptions (snd (SetFormat ParseFormat name outfile f))) = fm'"
  proof
    assume m: "(name, fm') \<in> set [(''CSV'', CSV), (''TSV'', TSV), (''FIXED'', FIXED), (''JSON'', JSON),
                            (''LTSV'', LTSV), (''GFM'', GFM), (''ORG'', ORG), (''TEXT'', TEXT)]"
    then have "name \<noteq> ''''" by auto
    moreover from m
    have "ParseFormat name (JsonEscape (ExportOptions f)) = Inr (fm', JsonEscape (ExportOptions f))"
      by (rule ParseFormat_names)
    ultimately show "fst (SetFormat ParseFormat name outfile f) = None
        \<and> Format (ExportOptions (snd (SetFormat ParseFormat name outfile f))) = fm'"
      by (simp add: SetFormat_def Let_def)
  qed
  have e1: "ToLower (Ext outfile) = ''.csv'' \<longrightarrow>
        Format (ExportOptions (snd (SetFormat parse '''' outfile f))) = CSV"
    using ext [of "''.csv''" CSV] by simp
  have e2: "ToLower (Ext outfile) = ''.tsv'' \<longrightarrow>
        Format (ExportOptions (snd (SetFormat parse '''' outfile f))) = TSV"
    using ext [of "''.tsv''" TSV] by simp
  have e3: "ToLower (Ext outfile) = ''.json'' \<longrightarrow>
        Format (ExportOptions (snd (SetFormat parse '''' outfile f))) = JSON"
    using ext [of "''.json''" JSON] by simp
  have e4: "ToLower (Ext outfile) = ''.ltsv'' \<longrightarrow>
        Format (ExportOptions (snd (SetFormat parse '''' outfile f))) = LTSV"
    using ext [of "''.ltsv''" LTSV] by simp
  have e5: "ToLower (Ext outfile) = ''.md'' \<longrightarrow>
        Format (ExportOptions (snd (SetFormat parse '''' outfile f))) = GFM"
    using ext [of "''.md''" GFM] by simp
  have e6: "ToLower (Ext outfile) = ''.org'' \<longrightarrow>
        Format (ExportOptions (snd (SetFormat parse '''' outfile f))) = ORG"
    using ext [of "''.org''" ORG] by simp
  show ?thesis
    by (intro conjI) (rule none e1 e2 e3 e4 e5 e6 other fold explicit named)+
qed

theorem SetFormat_witness:
  "Format (ExportOptions (snd (SetFormat ParseFormat '''' ''out/Result.CSV'' (NewFlags () 4)))) = CSV
   \<and> snd (SetFormat ParseFormat '''' ''notes.txt'' (NewFlags () 4)) = NewFlags () 4
   \<and> Format (ExportOptions (snd (SetFormat ParseFormat ''ORG'' ''notes.txt'' (NewFlags () 4)))) = ORG"
proof -
  let ?f = "NewFlags () 4 :: unit Flags"
  note a = SetFormat_infers_or_parses [where parse = ParseFormat and outfile = "''out/Result.CSV''"
      and f = ?f and name = "''ORG''" and fm' = ORG and e = "''CSV''" and stem = "''out/Result''"
      and s = "''ORG''" and fm = ORG and esc = Backslash]
  note b = SetFormat_infers_or_parses [where parse = ParseFormat and outfile = "''notes.txt''"
      and f = ?f and name = "''ORG''" and fm' = ORG and e = "''CSV''" and stem = "''out/Result''"
      and s = "''ORG''" and fm = ORG and esc = Backslash]
  from a have "ToLower (Ext ''out/Result.CSV'') = ''.csv'' \<longrightarrow>
        Format (ExportOptions (snd (SetFormat ParseFormat '''' ''out/Result.CSV'' ?f))) = CSV"
    by (elim conjE)
  with ToLower_Ext_Result_CSV
  have 1: "Format (ExportOptions (snd (SetFormat ParseFormat '''' ''out/Result.CSV'' ?f))) = CSV"
    by (rule rev_mp)
  from b have "ToLower (Ext ''notes.txt'') \<notin> {''.csv'', ''.tsv'', ''.json'', ''.ltsv'', ''.md'', ''.org''}
        \<longrightarrow> snd (SetFormat ParseFormat '''' ''notes.txt'' ?f) = ?f"
    by (elim conjE)
  with ToLower_Ext_notes_txt have 2: "snd (SetFormat ParseFormat '''' ''notes.txt'' ?f) = ?f"
    by (rule rev_mp)
  have m: "(''ORG'', ORG) \<in> set [(''CSV'', CSV), (''TSV'', TSV), (''FIXED'', FIXED), (''JSON'', JSON),
                            (''LTSV'', LTSV), (''GFM'', GFM), (''ORG'', ORG), (''TEXT'', TEXT)]"
    by simp
  from b have "(''ORG'', ORG) \<in> set [(''CSV'', CSV), (''TSV'', TSV), (''FIXED'', FIXED), (''JSON'', JSON),
                            (''LTSV'', LTSV), (''GFM'', GFM), (''ORG'', ORG), (''TEXT'', TEXT)] \<longrightarrow>
        fst (SetFormat ParseFormat ''ORG'' ''notes.txt'' ?f) = None
        \<and> Format (ExportOptions (snd (SetFormat ParseFormat ''ORG'' ''notes.txt'' ?f))) = ORG"
    by (elim conjE)
  with m have "fst (SetFormat ParseFormat ''ORG'' ''notes.txt'' ?f) = None
        \<and> Format (ExportOptions (snd (SetFormat ParseFormat ''ORG'' ''notes.txt'' ?f))) = ORG"
    by (rule rev_mp)
  then have 3: "Format (ExportOptions (snd (SetFormat ParseFormat ''ORG'' ''notes.txt'' ?f))) = ORG"
    by (rule conjunct2)
  from 1 2 3 show ?thesis by (intro conjI)
qed

lemma ToLower_Ext_out_json:
  "ToLower (Ext ''out.json'') \<in> {''.csv'', ''.tsv'', ''.json'', ''.ltsv'', ''.md'', ''.org''}"
  by code_simp

lemma hex_flags:
  "SetJsonEscape ParseJsonEscapeType ''HEX'' (NewFlags () 4) =
     (None, (NewFlags () 4)\<lparr>ExportOptions := NewExportOptions\<lparr>JsonEscape := HexDigits\<rparr>\<rparr>)"
  by (simp add: SetJsonEscape_def ParseJsonEscapeType_def NewFlags_def)

text \<open>
  C8. When \<open>SetFormat\<close> infers the format from a recognised extension (empty format
  string), it returns \<open>nil\<close> and sets \<open>ExportOptions.JsonEscape\<close> to the zero escape type
  \<open>Backslash\<close>, whatever was configured before; apart from \<open>Format\<close> and \<open>JsonEscape\<close>,
  no field of the export options changes, and no other flag does.
\<close>

theorem SetFormat_inference_resets_JsonEscape:
  assumes "ToLower (Ext outfile) \<in> {''.csv'', ''.tsv'', ''.json'', ''.ltsv'', ''.md'', ''.org''}"
  shows "fst (SetFormat parse '''' outfile f) = None
     \<and> JsonEscape (ExportOptions (snd (SetFormat parse '''' outfile f))) = Backslash
     \<and> (ExportOptions (snd (SetFormat parse '''' outfile f)))
           \<lparr>Format := Format (ExportOptions f), JsonEscape := JsonEscape (ExportOptions f)\<rparr>
         = ExportOptions f
     \<and> (snd (SetFormat parse '''' outfile f))\<lparr>ExportOptions := ExportOptions f\<rparr> = f"
proof -
  from assms obtain fm where
    "SetFormat parse '''' outfile f =
       (None, f\<lparr>ExportOptions := (ExportOptions f)\<lparr>Format := fm, JsonEscape := Backslash\<rparr>\<rparr>)"
    by (auto simp: SetFormat_def Let_def CsvExt_def TsvExt_def JsonExt_def LtsvExt_def
          GfmExt_def OrgExt_def)
  then show ?thesis by simp
qed

theorem SetFormat_inference_resets_JsonEscape_witness:
  "ToLower (Ext ''out.json'') \<in> {''.csv'', ''.tsv'', ''.json'', ''.ltsv'', ''.md'', ''.org''}
   \<and> JsonEscape (ExportOptions (snd (SetJsonEscape ParseJsonEscapeType ''HEX'' (NewFlags () 4))))
       = HexDigits
   \<and> JsonEscape (ExportOptions (snd (SetFormat ParseFormat '''' ''out.json''
        (snd (SetJsonEscape ParseJsonEscapeType ''HEX'' (NewFlags () 4)))))) = Backslash"
proof -
  let ?f = "snd (SetJsonEscape ParseJsonEscapeType ''HEX'' (NewFlags () 4 :: unit Flags))"
  have 1: "JsonEscape (ExportOptions ?f) = HexDigits"
    by (simp add: hex_flags)
  from SetFormat_inference_resets_JsonEscape [OF ToLower_Ext_out_json, of ParseFormat ?f]
  have 2: "JsonEscape (ExportOptions (snd (SetFormat ParseFormat '''' ''out.json'' ?f))) = Backslash"
    by (elim conjE)
  from ToLower_Ext_out_json 1 2 show ?thesis by (intro conjI)
qed


subsection \<open>The field index cache\<close>

lemma Add_all_append:
  "Add_all (ps @ qs) c = (case Add_all ps c of None \<Rightarrow> None | Some c' \<Rightarrow> Add_all qs c')"
  by (induction ps arbitrary: c) (auto split: option.splits)

lemma Get_slice_pairs:
  "Get_slice expr (map fst ps) (map snd ps) =
     (case map_of ps expr of Some idx \<Rightarrow> Some (idx, True) | None \<Rightarrow> Some (- 1, False))"
  by (induction ps) auto

lemma Add_copy_pairs:
  "distinct (map fst ps) \<Longrightarrow>
   \<exists>mp. Add_copy (map fst ps) (map snd ps) mp0 = Some mp \<and>
        (\<forall>e. mp e = (case map_of ps e of Some idx \<Rightarrow> Some idx | None \<Rightarrow> mp0 e))"
proof (induction ps arbitrary: mp0)
  case Nil
  then show ?case by simp
next
  case (Cons p ps)
  obtain e idx where p: "p = (e, idx)" by (cases p)
  from Cons.prems p have d: "distinct (map fst ps)" and ne: "e \<notin> fst ` set ps" by auto
  from Cons.IH [OF d, of "mp0(e \<mapsto> idx)"] obtain mp where
    mp: "Add_copy (map fst ps) (map snd ps) (mp0(e \<mapsto> idx)) = Some mp"
    and look: "\<forall>e'. mp e' = (case map_of ps e' of Some i \<Rightarrow> Some i | None \<Rightarrow> (mp0(e \<mapsto> idx)) e')"
    by blast
  have "map_of ps e = None" using ne by (simp add: map_of_eq_None_iff)
  with look have "\<forall>e'. mp e' = (case map_of (p # ps) e' of Some i \<Rightarrow> Some i | None \<Rightarrow> mp0 e')"
    using p by (auto split: option.splits)
  with mp p show ?case by simp
qed

lemma Add_all_New:
  assumes "distinct (map fst ps)"
  shows "\<exists>c. Add_all ps (NewFieldIndexCache initCap LimitToUseFieldIndexSliceChache) = Some c \<and>
     limitToUseSlice c = 8 \<and>
     (length ps \<le> 8 \<longrightarrow> m c = None \<and> exprs c = map fst ps \<and> indices c = map snd ps) \<and>
     (8 < length ps \<longrightarrow> m c = Some (map_of ps) \<and> exprs c = [] \<and> indices c = [])"
  using assms
proof (induction ps rule: rev_induct)
  case Nil
  then show ?case
    by (simp add: NewFieldIndexCache_def LimitToUseFieldIndexSliceChache_def)
next
  case (snoc p ps)
  obtain e idx where p: "p = (e, idx)" by (cases p)
  from snoc.prems p have d: "distinct (map fst ps)" and ne: "e \<notin> fst ` set ps" by auto
  from snoc.IH [OF d] obtain c where
    c: "Add_all ps (NewFieldIndexCache initCap LimitToUseFieldIndexSliceChache) = Some c"
    and lim: "limitToUseSlice c = 8"
    and small: "length ps \<le> 8 \<longrightarrow> m c = None \<and> exprs c = map fst ps \<and> indices c = map snd ps"
    and large: "8 < length ps \<longrightarrow> m c = Some (map_of ps) \<and> exprs c = [] \<and> indices c = []"
    by blast
  have none: "map_of ps e = None" using ne by (simp add: map_of_eq_None_iff)
  have upd: "(map_of ps)(e \<mapsto> idx) = map_of (ps @ [(e, idx)])"
  proof
    fix x show "((map_of ps)(e \<mapsto> idx)) x = map_of (ps @ [(e, idx)]) x"
      using none by (cases "map_of ps x") (auto simp: map_add_def)
  qed
  have all: "Add_all (ps @ [p]) (NewFieldIndexCache initCap LimitToUseFieldIndexSliceChache)
               = Add e idx c"
    using c p by (simp add: Add_all_append split: option.splits)
  consider (lt) "length ps < 8" | (eq) "length ps = 8" | (gt) "8 < length ps" by linarith
  then show ?case
  proof cases
    case lt
    with small lim have "Add e idx c =
        Some (c\<lparr>exprs := map fst (ps @ [p]), indices := map snd (ps @ [p])\<rparr>)"
      using p by (simp add: Add_def)
    with all lt small lim show ?thesis by auto
  next
    case eq
    from Add_copy_pairs [OF d, of Map.empty] obtain mp where
      mp: "Add_copy (map fst ps) (map snd ps) Map.empty = Some mp"
      and look: "\<forall>x. mp x = (case map_of ps x of Some i \<Rightarrow> Some i | None \<Rightarrow> None)"
      by auto
    have "mp = map_of ps"
    proof
      fix x show "mp x = map_of ps x" using look by (cases "map_of ps x") auto
    qed
    with mp eq small lim have "Add e idx c =
        Some (c\<lparr>m := Some ((map_of ps)(e \<mapsto> idx)), exprs := [], indices := []\<rparr>)"
      by (simp add: Add_def)
    with all eq lim upd p show ?thesis by auto
  next
    case gt
    with large have "Add e idx c = Some (c\<lparr>m := Some ((map_of ps)(e \<mapsto> idx))\<rparr>)"
      by (simp add: Add_def)
    with all gt large lim upd p show ?thesis by auto
  qed
qed

text \<open>
  C4. After any sequence of \<open>Add\<close> calls with pairwise distinct expressions on a new
  cache (with the limit 8 of \<open>NewReferenceRecord\<close>), no call has panicked, \<open>Get\<close> of an
  added expression returns the index added for it with \<open>found = true\<close>, and \<open>Get\<close> of
  any other expression returns \<open>found = false\<close>. The cache holds the two parallel slices
  (all pairs, in order) as long as at most 8 pairs were added, and the map, with the
  slices emptied, from the ninth \<open>Add\<close> on: the switch happens exactly at the \<open>Add\<close> that
  finds 8 entries in the slice, and the answers of \<open>Get\<close> are the same on both sides of it.
\<close>

theorem FieldIndexCache_Get_after_Add:
  assumes "distinct (map fst ps)"
  shows "\<exists>c. Add_all ps (NewFieldIndexCache initCap LimitToUseFieldIndexSliceChache) = Some c
     \<and> (\<forall>(e, idx) \<in> set ps. Get c e = Some (idx, True))
     \<and> (\<forall>e. e \<notin> fst ` set ps \<longrightarrow> (\<exists>idx. Get c e = Some (idx, False)))
     \<and> (m c = None \<longleftrightarrow> length ps \<le> 8)
     \<and> (m c = None \<longrightarrow> exprs c = map fst ps \<and> indices c = map snd ps)
     \<and> (m c \<noteq> None \<longrightarrow> exprs c = [] \<and> indices c = [])"
proof -
  from Add_all_New [OF assms, of initCap] obtain c where
    c: "Add_all ps (NewFieldIndexCache initCap LimitToUseFieldIndexSliceChache) = Some c"
    and small: "length ps \<le> 8 \<longrightarrow> m c = None \<and> exprs c = map fst ps \<and> indices c = map snd ps"
    and large: "8 < length ps \<longrightarrow> m c = Some (map_of ps) \<and> exprs c = [] \<and> indices c = []"
    by blast
  have get: "Get c e = (case map_of ps e of Some idx \<Rightarrow> Some (idx, True)
                        | None \<Rightarrow> Some (if length ps \<le> 8 then - 1 else 0, False))" for e
  proof (cases "length ps \<le> 8")
    case True
    with small show ?thesis by (simp add: Get_def Get_slice_pairs split: option.splits)
  next
    case False
    with large show ?thesis by (simp add: Get_def split: option.splits)
  qed
  have found: "\<forall>(e, idx) \<in> set ps. Get c e = Some (idx, True)"
    using assms by (auto simp: get)
  have missing: "\<forall>e. e \<notin> fst ` set ps \<longrightarrow> (\<exists>idx. Get c e = Some (idx, False))"
    by (auto simp: get split: option.splits dest: map_of_SomeD intro: rev_image_eqI)
  have rep: "m c = None \<longleftrightarrow> length ps \<le> 8"
    using small large by (cases "length ps \<le> 8") auto
  from c found missing rep small large show ?thesis
    by (intro exI [of _ c]) auto
qed

theorem FieldIndexCache_witness:
  "distinct (map fst nine_fields)
   \<and> (\<exists>c. Add_all nine_fields (NewFieldIndexCache 0 LimitToUseFieldIndexSliceChache) = Some c
          \<and> Get c ''a'' = Some (0, True) \<and> Get c ''i'' = Some (8, True)
          \<and> (\<exists>idx. Get c ''z'' = Some (idx, False)) \<and> m c \<noteq> None)
   \<and> (\<exists>c. Add_all (take 8 nine_fields) (NewFieldIndexCache 0 LimitToUseFieldIndexSliceChache) = Some c
          \<and> Get c ''a'' = Some (0, True) \<and> Get c ''h'' = Some (7, True)
          \<and> (\<exists>idx. Get c ''i'' = Some (idx, False)) \<and> m c = None)"
proof -
  have d9: "distinct (map fst nine_fields)"
    by (simp add: nine_fields_def)
  have d8: "distinct (map fst (take 8 nine_fields))"
    by (simp add: nine_fields_def)
  from FieldIndexCache_Get_after_Add [OF d9, of 0] obtain c9 where
    all9: "Add_all nine_fields (NewFieldIndexCache 0 LimitToUseFieldIndexSliceChache) = Some c9
     \<and> (\<forall>(e, idx) \<in> set nine_fields. Get c9 e = Some (idx, True))
     \<and> (\<forall>e. e \<notin> fst ` set nine_fields \<longrightarrow> (\<exists>idx. Get c9 e = Some (idx, False)))
     \<and> (m c9 = None \<longleftrightarrow> length nine_fields \<le> 8)
     \<and> (m c9 = None \<longrightarrow> exprs c9 = map fst nine_fields \<and> indices c9 = map snd nine_fields)
     \<and> (m c9 \<noteq> None \<longrightarrow> exprs c9 = [] \<and> indices c9 = [])" ..
  note c9 = all9 [THEN conjunct1]
    and f9 = all9 [THEN conjunct2, THEN conjunct1]
    and m9 = all9 [THEN conjunct2, THEN conjunct2, THEN conjunct1]
    and r9 = all9 [THEN conjunct2, THEN conjunct2, THEN conjunct2, THEN conjunct1]
  from FieldIndexCache_Get_after_Add [OF d8, of 0] obtain c8 where
    all8: "Add_all (take 8 nine_fields) (NewFieldIndexCache 0 LimitToUseFieldIndexSliceChache) = Some c8
     \<and> (\<forall>(e, idx) \<in> set (take 8 nine_fields). Get c8 e = Some (idx, True))
     \<and> (\<forall>e. e \<notin> fst ` set (take 8 nine_fields) \<longrightarrow> (\<exists>idx. Get c8 e = Some (idx, False)))
     \<and> (m c8 = None \<longleftrightarrow> length (take 8 nine_fields) \<le> 8)
     \<and> (m c8 = None \<longrightarrow> exprs c8 = map fst (take 8 nine_fields)
            \<and> indices c8 = map snd (take 8 nine_fields))
     \<and> (m c8 \<noteq> None \<longrightarrow> exprs c8 = [] \<and> indices c8 = [])" ..
  note c8 = all8 [THEN conjunct1]
    and f8 = all8 [THEN conjunct2, THEN conjunct1]
    and m8 = all8 [THEN conjunct2, THEN conjunct2, THEN conjunct1]
    and r8 = all8 [THEN conjunct2, THEN conjunct2, THEN conjunct2, THEN conjunct1]
  have "(''a'', 0) \<in> set nine_fields" "(''i'', 8) \<in> set nine_fields"
    by (simp_all add: nine_fields_def)
  with f9 have a9: "Get c9 ''a'' = Some (0, True)" and i9: "Get c9 ''i'' = Some (8, True)"
    by fastforce+
  have "''z'' \<notin> fst ` set nine_fields"
    by (simp add: nine_fields_def)
  with m9 have z9: "\<exists>idx. Get c9 ''z'' = Some (idx, False)"
    by blast
  have "\<not> length nine_fields \<le> 8"
    by (simp add: nine_fields_def)
  with r9 have n9: "m c9 \<noteq> None"
    by blast
  have "(''a'', 0) \<in> set (take 8 nine_fields)" "(''h'', 7) \<in> set (take 8 nine_fields)"
    by (simp_all add: nine_fields_def)
  with f8 have a8: "Get c8 ''a'' = Some (0, True)" and h8: "Get c8 ''h'' = Some (7, True)"
    by fastforce+
  have "''i'' \<notin> fst ` set (take 8 nine_fields)"
    by (simp add: nine_fields_def)
  with m8 have i8: "\<exists>idx. Get c8 ''i'' = Some (idx, False)"
    by blast
  from r8 have n8: "m c8 = None"
    by simp
  from d9 c9 a9 i9 z9 n9 c8 a8 h8 i8 n8 show ?thesis
    by blast
qed


subsection \<open>The block stack of a reference scope\<close>

lemma GetVariable_blocks_first:
  "i < length bs \<Longrightarrow> variables h (bs ! i) x = Some v \<Longrightarrow>
   \<forall>j<i. variables h (bs ! j) x = None \<Longrightarrow> GetVariable_blocks bs x h = Inr v"
proof (induction bs arbitrary: i)
  case Nil
  then show ?case by simp
next
  case (Cons b bs)
  show ?case
  proof (cases i)
    case 0
    with Cons.prems show ?thesis by (simp add: VariableMap_Get_def)
  next
    case (Suc k)
    with Cons.prems have "variables h b x = None" by auto
    moreover have "GetVariable_blocks bs x h = Inr v"
      using Cons.prems Suc by (intro Cons.IH [of k]) auto
    ultimately show ?thesis by (simp add: VariableMap_Get_def)
  qed
qed

lemma GetVariable_blocks_none:
  "\<forall>b \<in> set bs. variables h b x = None \<Longrightarrow>
   GetVariable_blocks bs x h = Inl (UndeclaredVariableError x)"
  by (induction bs) (auto simp: VariableMap_Get_def)

lemma GetVariable_blocks_found:
  "GetVariable_blocks bs x h = Inr v \<Longrightarrow>
   \<exists>i<length bs. variables h (bs ! i) x = Some v \<and> (\<forall>j<i. variables h (bs ! j) x = None)"
proof (induction bs)
  case Nil
  then show ?case by simp
next
  case (Cons b bs)
  show ?case
  proof (cases "variables h b x")
    case None
    with Cons.prems have "GetVariable_blocks bs x h = Inr v"
      by (simp add: VariableMap_Get_def)
    from Cons.IH [OF this] obtain i where i: "i < length bs"
      "variables h (bs ! i) x = Some v" "\<forall>j<i. variables h (bs ! j) x = None"
      by blast
    have "\<forall>j<Suc i. variables h ((b # bs) ! j) x = None"
    proof (intro allI impI)
      fix j assume "j < Suc i"
      then show "variables h ((b # bs) ! j) x = None"
        using None i(3) by (cases j) auto
    qed
    with i show ?thesis by (intro exI [of _ "Suc i"]) simp
  next
    case (Some w)
    with Cons.prems have "w = v" by (simp add: VariableMap_Get_def)
    with Some show ?thesis by (intro exI [of _ 0]) simp
  qed
qed

lemma GetVariable_blocks_cong:
  "\<forall>b \<in> set bs. variables h' b = variables h b \<Longrightarrow>
   GetVariable_blocks bs x h' = GetVariable_blocks bs x h"
  by (induction bs) (auto simp: VariableMap_Get_def split: option.splits)

lemma Substitute_blocks_first:
  "i < length bs \<Longrightarrow> variables h (bs ! i) x \<noteq> None \<Longrightarrow>
   \<forall>j<i. variables h (bs ! j) x = None \<Longrightarrow>
   Substitute_blocks bs x v h =
     (Inr v, h\<lparr>variables := (variables h)(bs ! i := (variables h (bs ! i))(x \<mapsto> v))\<rparr>)"
proof (induction bs arbitrary: i)
  case Nil
  then show ?case by simp
next
  case (Cons b bs)
  show ?case
  proof (cases i)
    case 0
    with Cons.prems have "variables h b x \<noteq> None" by simp
    then have "Substitute_blocks (b # bs) x v h =
       (Inr v, h\<lparr>variables := (variables h)(b := (variables h b)(x \<mapsto> v))\<rparr>)"
      by (simp add: VariableMap_Set_def)
    with 0 show ?thesis by (simp only: nth_Cons_0)
  next
    case (Suc k)
    with Cons.prems have "variables h b x = None" by auto
    moreover have "Substitute_blocks bs x v h =
       (Inr v, h\<lparr>variables := (variables h)(bs ! k := (variables h (bs ! k))(x \<mapsto> v))\<rparr>)"
      using Cons.prems Suc by (intro Cons.IH [of k]) auto
    ultimately have "Substitute_blocks (b # bs) x v h =
       (Inr v, h\<lparr>variables := (variables h)(bs ! k := (variables h (bs ! k))(x \<mapsto> v))\<rparr>)"
      by (simp add: VariableMap_Set_def)
    with Suc show ?thesis by (simp only: nth_Cons_Suc)
  qed
qed

lemma Substitute_blocks_none:
  "\<forall>b \<in> set bs. variables h b x = None \<Longrightarrow>
   Substitute_blocks bs x v h = (Inl (UndeclaredVariableError x), h)"
  by (induction bs) (auto simp: VariableMap_Set_def)

lemma Substitute_then_Get:
  assumes "GetVariable_blocks bs x h = Inr old"
  shows "\<exists>h'. Substitute_blocks bs x v h = (Inr v, h') \<and> GetVariable_blocks bs x h' = Inr v
           \<and> (\<forall>b. b \<notin> set bs \<longrightarrow> variables h' b = variables h b)
           \<and> blockScopePool h' = blockScopePool h \<and> allocated h' = allocated h"
proof -
  from GetVariable_blocks_found [OF assms] obtain i where i: "i < length bs"
    "variables h (bs ! i) x = Some old" "\<forall>j<i. variables h (bs ! j) x = None"
    by blast
  let ?h = "h\<lparr>variables := (variables h)(bs ! i := (variables h (bs ! i))(x \<mapsto> v))\<rparr>"
  have s: "Substitute_blocks bs x v h = (Inr v, ?h)"
    using i by (intro Substitute_blocks_first) auto
  have "\<forall>j<i. variables ?h (bs ! j) x = None"
  proof (intro allI impI)
    fix j assume j: "j < i"
    with i(3) have n: "variables h (bs ! j) x = None" by simp
    with i(2) have "bs ! j \<noteq> bs ! i" by auto
    with n show "variables ?h (bs ! j) x = None" by simp
  qed
  moreover have "variables ?h (bs ! i) x = Some v" by simp
  ultimately have g: "GetVariable_blocks bs x ?h = Inr v"
    using i(1) by (intro GetVariable_blocks_first [of i])
  have "\<forall>b. b \<notin> set bs \<longrightarrow> variables ?h b = variables h b"
    using i(1) by auto
  with s g show ?thesis by (intro exI [of _ ?h]) simp
qed

lemma CreateChild_fresh:
  assumes u: "scope_in_use rs h" and c: "CreateChild pick rs h = (child, h1)"
  shows "\<exists>b0. blocks child = b0 # blocks rs \<and> b0 \<notin> set (blocks rs)
           \<and> variables h1 b0 = Map.empty
           \<and> (\<forall>b. b \<noteq> b0 \<longrightarrow> variables h1 b = variables h b)
           \<and> scope_in_use child h1"
proof (cases "\<exists>i. pick = Some i \<and> i < length (blockScopePool h)")
  case True
  then obtain i where p: "pick = Some i" and i: "i < length (blockScopePool h)" by blast
  let ?pool = "blockScopePool h"
  let ?b = "?pool ! i"
  let ?h1 = "h\<lparr>blockScopePool := take i ?pool @ drop (Suc i) ?pool\<rparr>"
  from c p i have ch: "child = \<lparr>blocks = ?b # blocks rs\<rparr>" and h1: "h1 = ?h1"
    by (simp_all add: CreateChild_def GetBlockScope_def Let_def)
  have bin: "?b \<in> set ?pool" using i by simp
  from u have d: "distinct ?pool" by (simp add: scope_in_use_def)
  have rest: "set (take i ?pool @ drop (Suc i) ?pool) = set ?pool - {?b}"
  proof -
    have "?pool = take i ?pool @ ?b # drop (Suc i) ?pool"
      using i by (simp add: id_take_nth_drop)
    then have eq: "set ?pool = insert ?b (set (take i ?pool @ drop (Suc i) ?pool))"
      and "distinct (take i ?pool @ ?b # drop (Suc i) ?pool)"
      using d by (metis list.simps(15) set_append Un_insert_right, metis)
    then have "?b \<notin> set (take i ?pool @ drop (Suc i) ?pool)" by auto
    with eq show ?thesis by auto
  qed
  have d1: "distinct (take i ?pool @ drop (Suc i) ?pool)"
  proof -
    have "?pool = take i ?pool @ ?b # drop (Suc i) ?pool"
      using i by (simp add: id_take_nth_drop)
    with d have "distinct (take i ?pool @ ?b # drop (Suc i) ?pool)" by metis
    then show ?thesis by auto
  qed
  from u bin have nb: "?b \<notin> set (blocks rs)" and em: "variables h ?b = Map.empty"
    and lt: "?b < allocated h"
    by (auto simp: scope_in_use_def)
  have "scope_in_use child h1"
    unfolding scope_in_use_def ch h1
    using u rest d1 lt by (auto simp: scope_in_use_def)
  with ch h1 nb em show ?thesis by (intro exI [of _ ?b]) simp
next
  case False
  let ?b = "allocated h"
  let ?h1 = "h\<lparr>variables := (variables h)(?b := Map.empty), allocated := Suc ?b\<rparr>"
  from c False have ch: "child = \<lparr>blocks = ?b # blocks rs\<rparr>" and h1: "h1 = ?h1"
    by (auto simp: CreateChild_def GetBlockScope_def Let_def split: option.splits)
  from u have nb: "?b \<notin> set (blocks rs)" and np: "?b \<notin> set (blockScopePool h)"
    by (auto simp: scope_in_use_def)
  have "scope_in_use child h1"
    unfolding scope_in_use_def ch h1
    using u np by (auto simp: scope_in_use_def less_Suc_eq)
  with ch h1 nb show ?thesis by (intro exI [of _ ?b]) simp
qed

lemma child_assignment_reaches_parent:
  assumes u: "scope_in_use rs h" and c: "CreateChild pick rs h = (child, h1)"
    and g: "GetVariable rs x h = Inr old"
  shows "\<exists>h2. SubstituteVariableDirectly child x v h1 = (Inr v, h2)
           \<and> GetVariable rs x h2 = Inr v \<and> GetVariable child x h2 = Inr v
           \<and> variables h2 (blocks child ! 0) = Map.empty"
proof -
  from CreateChild_fresh [OF u c] obtain b0 where
    ch: "blocks child = b0 # blocks rs" and nb: "b0 \<notin> set (blocks rs)"
    and em: "variables h1 b0 = Map.empty"
    and same: "\<forall>b. b \<noteq> b0 \<longrightarrow> variables h1 b = variables h b"
    by blast
  have "\<forall>b \<in> set (blocks rs). variables h1 b = variables h b"
    using nb same by auto
  then have "GetVariable_blocks (blocks rs) x h1 = GetVariable_blocks (blocks rs) x h"
    by (rule GetVariable_blocks_cong)
  with g have "GetVariable_blocks (blocks rs) x h1 = Inr old"
    by (simp add: GetVariable_def)
  from Substitute_then_Get [OF this, of v] obtain h2 where
    s: "Substitute_blocks (blocks rs) x v h1 = (Inr v, h2)"
    and g2: "GetVariable_blocks (blocks rs) x h2 = Inr v"
    and out: "\<forall>b. b \<notin> set (blocks rs) \<longrightarrow> variables h2 b = variables h1 b"
    by blast
  from out nb em have em2: "variables h2 b0 = Map.empty" by simp
  have "SubstituteVariableDirectly child x v h1 = (Inr v, h2)"
    using ch em s by (simp add: SubstituteVariableDirectly_def VariableMap_Set_def)
  moreover have "GetVariable rs x h2 = Inr v"
    using g2 by (simp add: GetVariable_def)
  moreover have "GetVariable child x h2 = Inr v"
    using ch em2 g2 by (simp add: GetVariable_def VariableMap_Get_def)
  moreover have "variables h2 (blocks child ! 0) = Map.empty"
    using ch em2 by simp
  ultimately show ?thesis by blast
qed

lemma child_declaration_ends_with_block:
  assumes u: "scope_in_use rs h" and c: "CreateChild pick rs h = (child, h1)"
  shows "\<exists>h2 h3. DeclareVariableDirectly child x v h1 = Some (None, h2)
           \<and> GetVariable child x h2 = Inr v
           \<and> CloseCurrentBlock child h2 = Some h3
           \<and> GetVariable rs x h3 = GetVariable rs x h
           \<and> GetVariable child x h3 = GetVariable rs x h"
proof -
  from CreateChild_fresh [OF u c] obtain b0 where
    ch: "blocks child = b0 # blocks rs" and nb: "b0 \<notin> set (blocks rs)"
    and em: "variables h1 b0 = Map.empty"
    and same: "\<forall>b. b \<noteq> b0 \<longrightarrow> variables h1 b = variables h b"
    by blast
  let ?h2 = "h1\<lparr>variables := (variables h1)(b0 := [x \<mapsto> v])\<rparr>"
  let ?h3 = "PutBlockScope b0 ?h2"
  have cb: "CurrentBlock child = Some b0"
    using ch by (simp add: CurrentBlock_def)
  have d: "DeclareVariableDirectly child x v h1 = Some (None, ?h2)"
    using cb em by (simp add: DeclareVariableDirectly_def VariableMap_Add_def)
  have g2: "GetVariable child x ?h2 = Inr v"
    using ch by (simp add: GetVariable_def VariableMap_Get_def)
  have cl: "CloseCurrentBlock child ?h2 = Some ?h3"
    using cb by (simp add: CloseCurrentBlock_def)
  have "\<forall>b \<in> set (blocks rs). variables ?h3 b = variables h b"
    using nb same by (auto simp: PutBlockScope_def)
  then have r: "GetVariable_blocks (blocks rs) x ?h3 = GetVariable_blocks (blocks rs) x h"
    by (rule GetVariable_blocks_cong)
  have e3: "variables ?h3 b0 = Map.empty"
    by (simp add: PutBlockScope_def)
  have g3: "GetVariable rs x ?h3 = GetVariable rs x h"
    using r by (simp add: GetVariable_def)
  have g4: "GetVariable child x ?h3 = GetVariable rs x h"
    using ch r e3 by (simp add: GetVariable_def VariableMap_Get_def)
  from d g2 cl g3 g4 show ?thesis by blast
qed

lemma global_in_use: "scope_in_use global_scope global_heap"
  by (simp add: scope_in_use_def global_scope_def global_heap_def NewReferenceScopeWithBlock_def)

text \<open>
  C3. For a scope in use: block 0 is the current (innermost) block and \<open>Global\<close> returns
  the last block. \<open>DeclareVariableDirectly\<close> adds the variable to block 0 and to no other
  block (and reports a redeclaration, changing nothing, when block 0 binds the name
  already); \<open>DeclareVariable\<close> is the same after evaluating the value. \<open>GetVariable\<close>
  returns the binding of the first block, from index 0, that binds the name, and the
  undeclared-variable error when none does. \<open>SubstituteVariableDirectly\<close> assigns in the
  first block that binds the name, leaves every other block as it was, and returns the
  undeclared-variable error, changing nothing, when none binds it; \<open>SubstituteVariable\<close>
  is the same after evaluating the value. \<open>CreateChild\<close> puts an empty block in front of
  the parent's blocks (whatever scope the pool hands out) and keeps the global block. An
  assignment through the child to a variable of the parent changes the parent's binding:
  the parent reads the new value. A variable declared through the child is read through
  the child while its block is open; once \<open>CloseCurrentBlock\<close> has closed that block, both
  the parent and the child read what the parent read before the child was created (the
  undeclared-variable error when the parent does not bind the name).
\<close>

theorem ReferenceScope_block_stack:
  assumes "scope_in_use rs h"
  shows
  "CurrentBlock rs = Some (blocks rs ! 0) \<and> Global rs = Some (last (blocks rs))
   \<and> DeclareVariableDirectly rs x v h =
       (if variables h (blocks rs ! 0) x = None
        then Some (None, h\<lparr>variables :=
               (variables h)(blocks rs ! 0 := (variables h (blocks rs ! 0))(x \<mapsto> v))\<rparr>)
        else Some (Some (VariableRedeclaredError x), h))
   \<and> DeclareVariable Evaluate rs x h =
       (case Evaluate h of
          (Inl e, h') \<Rightarrow> Some (Some (EvaluationError e), h')
        | (Inr w, h') \<Rightarrow> DeclareVariableDirectly rs x w h')
   \<and> (\<forall>i w. i < length (blocks rs) \<and> variables h (blocks rs ! i) x = Some w
          \<and> (\<forall>j<i. variables h (blocks rs ! j) x = None) \<longrightarrow>
        GetVariable rs x h = Inr w)
   \<and> ((\<forall>b \<in> set (blocks rs). variables h b x = None) \<longrightarrow>
        GetVariable rs x h = Inl (UndeclaredVariableError x))
   \<and> (\<forall>i. i < length (blocks rs) \<and> variables h (blocks rs ! i) x \<noteq> None
          \<and> (\<forall>j<i. variables h (blocks rs ! j) x = None) \<longrightarrow>
        SubstituteVariableDirectly rs x v h =
          (Inr v, h\<lparr>variables :=
             (variables h)(blocks rs ! i := (variables h (blocks rs ! i))(x \<mapsto> v))\<rparr>))
   \<and> ((\<forall>b \<in> set (blocks rs). variables h b x = None) \<longrightarrow>
        SubstituteVariableDirectly rs x v h = (Inl (UndeclaredVariableError x), h))
   \<and> SubstituteVariable Evaluate rs x h =
       (case Evaluate h of
          (Inl e, h') \<Rightarrow> (Inl (EvaluationError e), h')
        | (Inr w, h') \<Rightarrow> SubstituteVariableDirectly rs x w h')
   \<and> (\<forall>child h1. CreateChild pick rs h = (child, h1) \<longrightarrow>
        scope_in_use child h1 \<and> tl (blocks child) = blocks rs \<and> Global child = Global rs
        \<and> variables h1 (blocks child ! 0) = Map.empty
        \<and> (\<forall>old. GetVariable rs x h = Inr old \<longrightarrow>
             (\<exists>h2. SubstituteVariableDirectly child x v h1 = (Inr v, h2)
                \<and> GetVariable rs x h2 = Inr v \<and> GetVariable child x h2 = Inr v
                \<and> variables h2 (blocks child ! 0) = Map.empty))
        \<and> (\<exists>h2 h3. DeclareVariableDirectly child x v h1 = Some (None, h2)
             \<and> GetVariable child x h2 = Inr v
             \<and> CloseCurrentBlock child h2 = Some h3
             \<and> GetVariable rs x h3 = GetVariable rs x h
             \<and> GetVariable child x h3 = GetVariable rs x h))"
proof -
  from assms have ne: "blocks rs \<noteq> []" by (simp add: scope_in_use_def)
  have cur: "CurrentBlock rs = Some (blocks rs ! 0)"
    using ne by (simp add: CurrentBlock_def)
  have glob: "Global rs = Some (last (blocks rs))"
    using ne by (simp add: Global_def last_conv_nth)
  have decl: "DeclareVariableDirectly rs x w h' =
       (if variables h' (blocks rs ! 0) x = None
        then Some (None, h'\<lparr>variables :=
               (variables h')(blocks rs ! 0 := (variables h' (blocks rs ! 0))(x \<mapsto> w))\<rparr>)
        else Some (Some (VariableRedeclaredError x), h'))" for w h'
    using cur by (simp add: DeclareVariableDirectly_def VariableMap_Add_def)
  have decl_eval: "DeclareVariable Evaluate rs x h =
       (case Evaluate h of
          (Inl e, h') \<Rightarrow> Some (Some (EvaluationError e), h')
        | (Inr w, h') \<Rightarrow> DeclareVariableDirectly rs x w h')"
    using cur by (simp add: DeclareVariable_def DeclareVariableDirectly_def
        split: prod.splits sum.splits)
  have get1: "\<forall>i w. i < length (blocks rs) \<and> variables h (blocks rs ! i) x = Some w
          \<and> (\<forall>j<i. variables h (blocks rs ! j) x = None) \<longrightarrow>
        GetVariable rs x h = Inr w"
    by (auto simp: GetVariable_def intro: GetVariable_blocks_first)
  have get2: "(\<forall>b \<in> set (blocks rs). variables h b x = None) \<longrightarrow>
        GetVariable rs x h = Inl (UndeclaredVariableError x)"
    by (auto simp: GetVariable_def intro: GetVariable_blocks_none)
  have sub1: "\<forall>i. i < length (blocks rs) \<and> variables h (blocks rs ! i) x \<noteq> None
          \<and> (\<forall>j<i. variables h (blocks rs ! j) x = None) \<longrightarrow>
        SubstituteVariableDirectly rs x v h =
          (Inr v, h\<lparr>variables :=
             (variables h)(blocks rs ! i := (variables h (blocks rs ! i))(x \<mapsto> v))\<rparr>)"
    unfolding SubstituteVariableDirectly_def
    by (intro allI impI Substitute_blocks_first) auto
  have sub2: "(\<forall>b \<in> set (blocks rs). variables h b x = None) \<longrightarrow>
        SubstituteVariableDirectly rs x v h = (Inl (UndeclaredVariableError x), h)"
    unfolding SubstituteVariableDirectly_def
    by (intro impI Substitute_blocks_none)
  have sub_eval: "SubstituteVariable Evaluate rs x h =
       (case Evaluate h of
          (Inl e, h') \<Rightarrow> (Inl (EvaluationError e), h')
        | (Inr w, h') \<Rightarrow> SubstituteVariableDirectly rs x w h')"
    by (simp add: SubstituteVariable_def SubstituteVariableDirectly_def
        split: prod.splits sum.splits)
  have child: "\<forall>child h1. CreateChild pick rs h = (child, h1) \<longrightarrow>
        scope_in_use child h1 \<and> tl (blocks child) = blocks rs \<and> Global child = Global rs
        \<and> variables h1 (blocks child ! 0) = Map.empty
        \<and> (\<forall>old. GetVariable rs x h = Inr old \<longrightarrow>
             (\<exists>h2. SubstituteVariableDirectly child x v h1 = (Inr v, h2)
                \<and> GetVariable rs x h2 = Inr v \<and> GetVariable child x h2 = Inr v
                \<and> variables h2 (blocks child ! 0) = Map.empty))
        \<and> (\<exists>h2 h3. DeclareVariableDirectly child x v h1 = Some (None, h2)
             \<and> GetVariable child x h2 = Inr v
             \<and> CloseCurrentBlock child h2 = Some h3
             \<and> GetVariable rs x h3 = GetVariable rs x h
             \<and> GetVariable child x h3 = GetVariable rs x h)"
  proof (intro allI impI)
    fix child h1 assume c: "CreateChild pick rs h = (child, h1)"
    from CreateChild_fresh [OF assms c] obtain b0 where
      ch: "blocks child = b0 # blocks rs" and em: "variables h1 b0 = Map.empty"
      and use: "scope_in_use child h1"
      by blast
    have t: "tl (blocks child) = blocks rs" using ch by simp
    have gl: "Global child = Global rs"
      using ch ne by (simp add: Global_def)
    have e0: "variables h1 (blocks child ! 0) = Map.empty" using ch em by simp
    have cross: "\<forall>old. GetVariable rs x h = Inr old \<longrightarrow>
             (\<exists>h2. SubstituteVariableDirectly child x v h1 = (Inr v, h2)
                \<and> GetVariable rs x h2 = Inr v \<and> GetVariable child x h2 = Inr v
                \<and> variables h2 (blocks child ! 0) = Map.empty)"
      using child_assignment_reaches_parent [OF assms c] by blast
    note iso = child_declaration_ends_with_block [OF assms c, of x v]
    from use t gl e0 cross iso
    show "scope_in_use child h1 \<and> tl (blocks child) = blocks rs \<and> Global child = Global rs
        \<and> variables h1 (blocks child ! 0) = Map.empty
        \<and> (\<forall>old. GetVariable rs x h = Inr old \<longrightarrow>
             (\<exists>h2. SubstituteVariableDirectly child x v h1 = (Inr v, h2)
                \<and> GetVariable rs x h2 = Inr v \<and> GetVariable child x h2 = Inr v
                \<and> variables h2 (blocks child ! 0) = Map.empty))
        \<and> (\<exists>h2 h3. DeclareVariableDirectly child x v h1 = Some (None, h2)
             \<and> GetVariable child x h2 = Inr v
             \<and> CloseCurrentBlock child h2 = Some h3
             \<and> GetVariable rs x h3 = GetVariable rs x h
             \<and> GetVariable child x h3 = GetVariable rs x h)"
      by (intro conjI)
  qed
  show ?thesis
    by (intro conjI) (rule cur glob decl decl_eval get1 get2 sub1 sub2 sub_eval child)+
qed

theorem ReferenceScope_witness:
  "scope_in_use global_scope global_heap
   \<and> CurrentBlock global_scope = Some 0 \<and> Global global_scope = Some 0
   \<and> GetVariable global_scope ''a'' global_heap = Inr 1
   \<and> blocks (fst (CreateChild None global_scope global_heap)) = [1, 0]
   \<and> (\<exists>h2. SubstituteVariableDirectly (fst (CreateChild None global_scope global_heap)) ''a'' 7
              (snd (CreateChild None global_scope global_heap)) = (Inr 7, h2)
          \<and> GetVariable global_scope ''a'' h2 = Inr 7)
   \<and> (\<exists>h2 h3. DeclareVariableDirectly (fst (CreateChild None global_scope global_heap)) ''b'' 2
              (snd (CreateChild None global_scope global_heap)) = Some (None, h2)
          \<and> GetVariable (fst (CreateChild None global_scope global_heap)) ''b'' h2 = Inr 2
          \<and> CloseCurrentBlock (fst (CreateChild None global_scope global_heap)) h2 = Some h3
          \<and> GetVariable global_scope ''b'' h3 = Inl (UndeclaredVariableError ''b''))"
proof -
  let ?child = "fst (CreateChild None global_scope global_heap)"
  let ?h1 = "snd (CreateChild None global_scope global_heap)"
  have c: "CreateChild None global_scope global_heap = (?child, ?h1)" by simp
  have b: "blocks ?child = [1, 0]"
    by (simp add: CreateChild_def GetBlockScope_def global_scope_def global_heap_def
          NewReferenceScopeWithBlock_def)
  have a1: "GetVariable global_scope ''a'' global_heap = Inr 1"
    by (simp add: GetVariable_def global_scope_def global_heap_def
          NewReferenceScopeWithBlock_def VariableMap_Get_def)
  have b0: "GetVariable global_scope ''b'' global_heap = Inl (UndeclaredVariableError ''b'')"
    by (simp add: GetVariable_def global_scope_def global_heap_def
          NewReferenceScopeWithBlock_def VariableMap_Get_def)
  have bl: "blocks global_scope ! 0 = 0" "last (blocks global_scope) = 0"
    by (simp_all add: global_scope_def NewReferenceScopeWithBlock_def)
  note ta = ReferenceScope_block_stack [OF global_in_use, where x = "''a''" and v = 7
      and pick = None and Evaluate = yields_seven]
  note tb = ReferenceScope_block_stack [OF global_in_use, where x = "''b''" and v = 2
      and pick = None and Evaluate = yields_seven]
  note cur = ta [THEN conjunct1]
    and glob = ta [THEN conjunct2, THEN conjunct1]
    and cha = ta [THEN conjunct2, THEN conjunct2, THEN conjunct2, THEN conjunct2, THEN conjunct2,
        THEN conjunct2, THEN conjunct2, THEN conjunct2, THEN conjunct2, rule_format, OF c]
    and chb = tb [THEN conjunct2, THEN conjunct2, THEN conjunct2, THEN conjunct2, THEN conjunct2,
        THEN conjunct2, THEN conjunct2, THEN conjunct2, THEN conjunct2, rule_format, OF c]
  from cha a1 have cross: "\<exists>h2. SubstituteVariableDirectly ?child ''a'' 7 ?h1 = (Inr 7, h2)
          \<and> GetVariable global_scope ''a'' h2 = Inr 7"
    by blast
  from chb have "\<exists>h2 h3. DeclareVariableDirectly ?child ''b'' 2 ?h1 = Some (None, h2)
             \<and> GetVariable ?child ''b'' h2 = Inr 2
             \<and> CloseCurrentBlock ?child h2 = Some h3
             \<and> GetVariable global_scope ''b'' h3 = GetVariable global_scope ''b'' global_heap"
    by blast
  with b0 have iso: "\<exists>h2 h3. DeclareVariableDirectly ?child ''b'' 2 ?h1 = Some (None, h2)
             \<and> GetVariable ?child ''b'' h2 = Inr 2
             \<and> CloseCurrentBlock ?child h2 = Some h3
             \<and> GetVariable global_scope ''b'' h3 = Inl (UndeclaredVariableError ''b'')"
    by simp
  from cur glob bl have cg: "CurrentBlock global_scope = Some 0" "Global global_scope = Some 0"
    by simp_all
  from global_in_use cg a1 b cross iso show ?thesis
    by (intro conjI)
qed


subsection \<open>Rendering of single values\<close>

lemma ConvertFieldContents_effect_kind:
  "fst (snd (ConvertFieldContents fm v False)) = StringEffect \<longleftrightarrow> kind_of v = KString"
  "fst (snd (ConvertFieldContents fm v False)) = DatetimeEffect \<longleftrightarrow> kind_of v = KDatetime"
  by (cases v; simp)+

text \<open>
  C10. \<open>ConvertFieldContents\<close> has a result for each of the seven kinds of primary value
  (every value is of one of the seven kinds, and the function returns a triple for it).
  Outside plain-text-table mode, Null and the ternary UNKNOWN both render as the empty
  string with no effect and no alignment. In plain-text-table mode, Null renders as
  "NULL" with the null effect and every ternary renders as its name with the ternary
  effect, both centred.
\<close>

theorem ConvertFieldContents_null_and_ternary:
  "(\<exists>s e a. ConvertFieldContents fm v forTextTable = (s, e, a))
   \<and> kind_of v \<in> {KString, KInteger, KFloat, KBoolean, KTernary, KDatetime, KNull}
   \<and> ConvertFieldContents fm Null False = ('''', NoEffect, NotAligned)
   \<and> ConvertFieldContents fm (Ternary UNKNOWN) False = ('''', NoEffect, NotAligned)
   \<and> ConvertFieldContents fm Null True = (''NULL'', NullEffect, Centering)
   \<and> ConvertFieldContents fm (Ternary t) True = (ternary_String t, TernaryEffect, Centering)"
  by (cases v; simp)

end
